theory Spec2Isabelle
  imports Complex_Main
begin

section \<open>JSON values as the Python scripts see them\<close>

text \<open>
  The three scripts read one JSON document with \<^verbatim>\<open>json.load\<close> and then use it
  duck-typed. A document is therefore modelled as the value \<^verbatim>\<open>json.load\<close> returns:
  \<^verbatim>\<open>None\<close>, \<^verbatim>\<open>bool\<close>, unbounded \<^verbatim>\<open>int\<close>, \<^verbatim>\<open>float\<close>, \<^verbatim>\<open>str\<close>, \<^verbatim>\<open>list\<close> and
  \<^verbatim>\<open>dict\<close>. A dict is an association list in insertion order, keys distinct, read
  with \<open>map_of\<close> and written with \<open>dict_set\<close>. A float is either a finite value (kept as
  the rational it denotes, so that the sign of a zero is not kept), an infinity or NaN.
\<close>

datatype pyfloat = Fin rat | PosInf | NegInf | NaN

datatype json =
    JNull
  | JBool bool
  | JInt int
  | JFloat pyfloat
  | JStr string
  | JList "json list"
  | JObj "(string \<times> json) list"

text \<open>Every exception the modelled code can raise is a value.\<close>

datatype py_error =
    AttributeError
  | TypeError
  | KeyError
  | IndexError
  | ValueError
  | FileNotFoundError
  | JSONDecodeError
  | SameFileError
  | OSError
  | ZeroDivisionError
  | OverflowError

text \<open>Sequencing of steps that may raise: the first exception ends the computation.\<close>

definition bindE :: "'e + 'a \<Rightarrow> ('a \<Rightarrow> 'e + 'b) \<Rightarrow> 'e + 'b" where
  "bindE m f = (case m of Inl e \<Rightarrow> Inl e | Inr x \<Rightarrow> f x)"

text \<open>\<^verbatim>\<open>d[k] = v\<close> on a dict: replace in place, or append a new key at the end.\<close>

fun dict_set :: "string \<Rightarrow> json \<Rightarrow> (string \<times> json) list \<Rightarrow> (string \<times> json) list" where
  "dict_set k v [] = [(k, v)]"
| "dict_set k v ((k', v') # kvs) =
     (if k' = k then (k, v) # kvs else (k', v') # dict_set k v kvs)"

text \<open>\<^verbatim>\<open>d.get(k, default)\<close> and \<^verbatim>\<open>d.get(k)\<close> (whose default is \<^verbatim>\<open>None\<close>).\<close>

definition dict_get :: "(string \<times> json) list \<Rightarrow> string \<Rightarrow> json \<Rightarrow> json" where
  "dict_get kvs k dflt = (case map_of kvs k of None \<Rightarrow> dflt | Some v \<Rightarrow> v)"

text \<open>\<^verbatim>\<open>x.get(k, default)\<close> on any value: only a dict has the method.\<close>

definition py_get :: "json \<Rightarrow> string \<Rightarrow> json \<Rightarrow> py_error + json" where
  "py_get x k dflt = (case x of JObj kvs \<Rightarrow> Inr (dict_get kvs k dflt) | _ \<Rightarrow> Inl AttributeError)"

text \<open>Python truth value of a JSON value (\<^verbatim>\<open>if x\<close>, \<^verbatim>\<open>not x\<close>).\<close>

fun py_truthy :: "json \<Rightarrow> bool" where
  "py_truthy JNull = False"
| "py_truthy (JBool b) = b"
| "py_truthy (JInt i) = (i \<noteq> 0)"
| "py_truthy (JFloat x) = (x \<noteq> Fin 0)"
| "py_truthy (JStr s) = (s \<noteq> [])"
| "py_truthy (JList xs) = (xs \<noteq> [])"
| "py_truthy (JObj kvs) = (kvs \<noteq> [])"

text \<open>
  \<^verbatim>\<open>x == b\<close> for a bool \<open>b\<close>: \<^verbatim>\<open>bool\<close> is a subclass of \<^verbatim>\<open>int\<close>, so numbers compare
  by value (\<^verbatim>\<open>1 == True\<close>, \<^verbatim>\<open>0.0 == False\<close>); every other type is unequal.
\<close>

fun py_eq_bool :: "json \<Rightarrow> bool \<Rightarrow> bool" where
  "py_eq_bool (JBool c) b = (c = b)"
| "py_eq_bool (JInt i) b = (i = (if b then 1 else 0))"
| "py_eq_bool (JFloat (Fin r)) b = (r = (if b then 1 else 0))"
| "py_eq_bool _ b = False"

text \<open>Iterating a value with \<^verbatim>\<open>for\<close>: lists give elements, strings characters, dicts keys.\<close>

fun py_iter :: "json \<Rightarrow> py_error + json list" where
  "py_iter (JList xs) = Inr xs"
| "py_iter (JStr s) = Inr (map (\<lambda>c. JStr [c]) s)"
| "py_iter (JObj kvs) = Inr (map (\<lambda>kv. JStr (fst kv)) kvs)"
| "py_iter _ = Inl TypeError"

text \<open>\<^verbatim>\<open>len(x)\<close>.\<close>

fun py_len :: "json \<Rightarrow> py_error + nat" where
  "py_len (JList xs) = Inr (length xs)"
| "py_len (JStr s) = Inr (length s)"
| "py_len (JObj kvs) = Inr (length kvs)"
| "py_len _ = Inl TypeError"

text \<open>
  \<^verbatim>\<open>x[:n]\<close>: strings and lists slice; a dict rejects the slice as a key (with
  \<^verbatim>\<open>TypeError\<close>, as CPython up to 3.11 does; later versions raise \<^verbatim>\<open>KeyError\<close> there),
  and the remaining types are not subscriptable.
\<close>

fun py_prefix :: "nat \<Rightarrow> json \<Rightarrow> py_error + json" where
  "py_prefix n (JList xs) = Inr (JList (take n xs))"
| "py_prefix n (JStr s) = Inr (JStr (take n s))"
| "py_prefix n _ = Inl TypeError"

section \<open>Files and paths\<close>

text \<open>
  A path is its directory parts and its final component. The file system maps a path to
  the text of the file there. \<^verbatim>\<open>json.load\<close>, \<^verbatim>\<open>json.dump\<close>, the clock and the I/O
  failure that may strike a run belong to the runtime, not to the repository, and are
  parameters of the model.
\<close>

datatype path = Path (path_parent: "string list") (path_name: string)

type_synonym fs = "path \<Rightarrow> string option"

text \<open>
  Where a run's I/O fails, if anywhere: while the backup is copied (leaving the given
  partial text at the destination, if any), when the ledger is opened for writing, or
  while the document is written (leaving the given partial text).
\<close>

datatype io_fault = NoFault | CopyFault "string option" | OpenFault | WriteFault string

record runtime =
  json_loads :: "string \<Rightarrow> json option"
  json_dumps :: "json \<Rightarrow> string"
  now_isoformat :: string
  io_fault :: io_fault

text \<open>\<^verbatim>\<open>str.rfind\<close> of one character: the last index, if any.\<close>

fun rfind :: "char \<Rightarrow> string \<Rightarrow> nat option" where
  "rfind c [] = None"
| "rfind c (x # xs) =
     (case rfind c xs of Some i \<Rightarrow> Some (Suc i)
      | None \<Rightarrow> if x = c then Some 0 else None)"

text \<open>\<^verbatim>\<open>PurePath.suffix\<close>: the part of the name from its last dot, unless that dot is first or last.\<close>

definition py_suffix :: "string \<Rightarrow> string" where
  "py_suffix nm =
     (case rfind (CHR ''.'') nm of
        None \<Rightarrow> []
      | Some i \<Rightarrow> if 0 < i \<and> int i < int (length nm) - 1 then drop i nm else [])"

text \<open>\<^verbatim>\<open>PurePath.with_suffix\<close>: the old suffix is replaced, or the new one appended if there is none.\<close>

definition with_suffix :: "path \<Rightarrow> string \<Rightarrow> py_error + path" where
  "with_suffix p suffix =
     (if CHR ''/'' \<in> set suffix then Inl ValueError
      else if (suffix \<noteq> [] \<and> \<not> (take 1 suffix = ''.'')) \<or> suffix = ''.'' then Inl ValueError
      else if path_name p = [] then Inl ValueError
      else let old_suffix = py_suffix (path_name p) in
        if old_suffix = [] then Inr (Path (path_parent p) (path_name p @ suffix))
        else Inr (Path (path_parent p)
               (take (length (path_name p) - length old_suffix) (path_name p) @ suffix)))"

text \<open>
  \<^verbatim>\<open>shutil.copy(src, dst)\<close> between two file paths: the source must exist and differ from
  the destination; the destination is created or overwritten with the source's text.
\<close>

definition shutil_copy :: "io_fault \<Rightarrow> fs \<Rightarrow> path \<Rightarrow> path \<Rightarrow> (py_error + unit) \<times> fs" where
  "shutil_copy fault files src dst =
     (case files src of
        None \<Rightarrow> (Inl FileNotFoundError, files)
      | Some body \<Rightarrow>
          if src = dst then (Inl SameFileError, files)
          else (case fault of
                  CopyFault None \<Rightarrow> (Inl OSError, files)
                | CopyFault (Some part) \<Rightarrow> (Inl OSError, files(dst \<mapsto> part))
                | _ \<Rightarrow> (Inr (), files(dst \<mapsto> body))))"

section \<open>update\_feature.py\<close>

text \<open>
  \<^verbatim>\<open>load_feature_list\<close> opens and parses the file; \<^verbatim>\<open>save_feature_list\<close> copies the
  ledger to its backup path and then opens the ledger for writing and dumps the document.
  The first failing I/O step ends the function with the file system as that step left it.
\<close>

definition load_feature_list :: "runtime \<Rightarrow> fs \<Rightarrow> path \<Rightarrow> py_error + json" where
  "load_feature_list rt files filepath =
     (case files filepath of
        None \<Rightarrow> Inl FileNotFoundError
      | Some body \<Rightarrow> (case json_loads rt body of None \<Rightarrow> Inl JSONDecodeError | Some d \<Rightarrow> Inr d))"

definition save_feature_list :: "runtime \<Rightarrow> fs \<Rightarrow> path \<Rightarrow> json \<Rightarrow> bool \<Rightarrow> (py_error + unit) \<times> fs" where
  "save_feature_list rt files filepath data backup =
     (let copied =
        (if backup then
           (case with_suffix filepath ''.json.bak'' of
              Inl e \<Rightarrow> (Inl e, files)
            | Inr backup_path \<Rightarrow> shutil_copy (io_fault rt) files filepath backup_path)
         else (Inr (), files))
      in case copied of
           (Inl e, files1) \<Rightarrow> (Inl e, files1)
         | (Inr u, files1) \<Rightarrow>
             (case io_fault rt of
                OpenFault \<Rightarrow> (Inl OSError, files1)
              | WriteFault part \<Rightarrow> (Inl OSError, files1(filepath \<mapsto> part))
              | _ \<Rightarrow> (Inr (), files1(filepath \<mapsto> json_dumps rt data))))"

text \<open>
  \<^verbatim>\<open>find_feature\<close>: the first feature whose \<^verbatim>\<open>feature.get('id')\<close> equals the string
  \<open>feature_id\<close>, with its index. A feature that is not a dict raises when it is reached.
\<close>

fun find_loop :: "string \<Rightarrow> nat \<Rightarrow> json list \<Rightarrow> py_error + (nat \<times> json) option" where
  "find_loop feature_id i [] = Inr None"
| "find_loop feature_id i (feature # rest) =
     (case py_get feature ''id'' JNull of
        Inl e \<Rightarrow> Inl e
      | Inr v \<Rightarrow> if v = JStr feature_id then Inr (Some (i, feature))
                 else find_loop feature_id (Suc i) rest)"

definition find_feature :: "json \<Rightarrow> string \<Rightarrow> py_error + (nat \<times> json) option" where
  "find_feature data feature_id =
     (case py_get data ''features'' (JList []) of
        Inl e \<Rightarrow> Inl e
      | Inr fs \<Rightarrow> (case py_iter fs of Inl e \<Rightarrow> Inl e | Inr items \<Rightarrow> find_loop feature_id 0 items))"

text \<open>\<^verbatim>\<open>sum(1 for f in features if f.get('passes'))\<close> and its negated twin.\<close>

fun count_passes :: "bool \<Rightarrow> json list \<Rightarrow> py_error + nat" where
  "count_passes want [] = Inr 0"
| "count_passes want (f # rest) =
     (case py_get f ''passes'' JNull of
        Inl e \<Rightarrow> Inl e
      | Inr v \<Rightarrow> (case count_passes want rest of
                    Inl e \<Rightarrow> Inl e
                  | Inr n \<Rightarrow> Inr (if py_truthy v = want then Suc n else n)))"

text \<open>\<^verbatim>\<open>x[k] = v\<close> on any value: only a dict accepts a string key.\<close>

definition py_setitem :: "json \<Rightarrow> string \<Rightarrow> json \<Rightarrow> py_error + json" where
  "py_setitem x k v = (case x of JObj kvs \<Rightarrow> Inr (JObj (dict_set k v kvs)) | _ \<Rightarrow> Inl TypeError)"

text \<open>
  \<^verbatim>\<open>update_metadata\<close>: an absent \<open>metadata\<close> becomes \<^verbatim>\<open>{}\<close>, the three counts are
  computed from \<^verbatim>\<open>data.get('features', [])\<close> and stored with the timestamp.
\<close>

definition update_metadata :: "runtime \<Rightarrow> (string \<times> json) list \<Rightarrow> py_error + (string \<times> json) list" where
  "update_metadata rt data =
     (let data1 = (if map_of data ''metadata'' = None then dict_set ''metadata'' (JObj []) data else data);
          features = dict_get data1 ''features'' (JList [])
      in bindE (py_iter features) (\<lambda>items.
         bindE (count_passes True items) (\<lambda>passing.
         bindE (count_passes False items) (\<lambda>failing.
         bindE (py_len features) (\<lambda>total_n.
         bindE (py_setitem (dict_get data1 ''metadata'' JNull) ''total_features'' (JInt (int total_n))) (\<lambda>m1.
         bindE (py_setitem m1 ''passing'' (JInt (int passing))) (\<lambda>m2.
         bindE (py_setitem m2 ''failing'' (JInt (int failing))) (\<lambda>m3.
         bindE (py_setitem m3 ''last_updated'' (JStr (now_isoformat rt))) (\<lambda>m4.
         Inr (dict_set ''metadata'' m4 data1))))))))))"

text \<open>\<^verbatim>\<open>data['features'][index]['passes'] = passes\<close>.\<close>

definition set_passes :: "(string \<times> json) list \<Rightarrow> nat \<Rightarrow> bool \<Rightarrow> py_error + (string \<times> json) list" where
  "set_passes data index passes =
     (case map_of data ''features'' of
        None \<Rightarrow> Inl KeyError
      | Some (JList xs) \<Rightarrow>
          if index < length xs then
            bindE (py_setitem (xs ! index) ''passes'' (JBool passes)) (\<lambda>feature'.
            Inr (dict_set ''features'' (JList (xs[index := feature'])) data))
          else Inl IndexError
      | Some (JStr s) \<Rightarrow> if index < length s then Inl TypeError else Inl IndexError
      | Some (JObj kvs) \<Rightarrow> Inl KeyError
      | Some _ \<Rightarrow> Inl TypeError)"

text \<open>
  What the script prints, one constructor per \<^verbatim>\<open>print\<close> call, carrying the values the
  format string interpolates.
\<close>

datatype message =
    FileNotFoundMsg path
  | InvalidJsonMsg path
  | FeatureNotFoundMsg string
  | AvailableHeaderMsg
  | AvailableMsg bool json json
  | AndMoreMsg nat
  | AlreadyMarkedMsg string bool
  | FeatureMsg string
  | DescriptionMsg json
  | CategoryMsg json
  | ChangeMsg bool bool
  | DryRunMsg
  | UpdatedMsg string bool
  | BackupSavedMsg path
  | ProgressMsg json json

text \<open>
  The listing printed when the id is unknown: one line per feature, with its status
  icon, \<^verbatim>\<open>f.get('id')\<close> and \<^verbatim>\<open>f.get('description', '')[:50]\<close>. An exception ends the
  listing after the lines already printed.
\<close>

fun available_lines :: "json list \<Rightarrow> message list \<times> py_error option" where
  "available_lines [] = ([], None)"
| "available_lines (f # rest) =
     (case bindE (py_get f ''passes'' JNull) (\<lambda>p.
           bindE (py_get f ''id'' JNull) (\<lambda>i.
           bindE (py_get f ''description'' (JStr [])) (\<lambda>d.
           bindE (py_prefix 50 d) (\<lambda>d50.
           Inr (AvailableMsg (py_truthy p) i d50))))) of
        Inl e \<Rightarrow> ([], Some e)
      | Inr m \<Rightarrow> (case available_lines rest of (ms, r) \<Rightarrow> (m # ms, r)))"

definition report_not_found :: "json \<Rightarrow> string \<Rightarrow> message list \<times> (py_error + bool)" where
  "report_not_found data feature_id =
     (let header = [FeatureNotFoundMsg feature_id, AvailableHeaderMsg] in
      case bindE (py_get data ''features'' (JList [])) (\<lambda>fs. bindE (py_prefix 10 fs) py_iter) of
        Inl e \<Rightarrow> (header, Inl e)
      | Inr items \<Rightarrow>
          (case available_lines items of
             (ms, Some e) \<Rightarrow> (header @ ms, Inl e)
           | (ms, None) \<Rightarrow>
               (case bindE (py_get data ''features'' (JList [])) py_len of
                  Inl e \<Rightarrow> (header @ ms, Inl e)
                | Inr n \<Rightarrow>
                    (header @ ms @ (if n > 10 then [AndMoreMsg (n - 10)] else []), Inr False))))"

text \<open>
  The change itself, once the feature is found and differs: set the field, recompute the
  metadata, save with a backup, report. The result is the printed lines, the returned
  value or the exception that escaped, and the file system left behind.
\<close>

definition apply_change ::
  "runtime \<Rightarrow> fs \<Rightarrow> path \<Rightarrow> string \<Rightarrow> bool \<Rightarrow> (string \<times> json) list \<Rightarrow> nat
     \<Rightarrow> message list \<times> (py_error + bool) \<times> fs" where
  "apply_change rt files filepath feature_id passes data index =
     (case bindE (set_passes data index passes) (update_metadata rt) of
        Inl e \<Rightarrow> ([], Inl e, files)
      | Inr data' \<Rightarrow>
          (case save_feature_list rt files filepath (JObj data') True of
             (Inl e, files') \<Rightarrow> ([], Inl e, files')
           | (Inr u, files') \<Rightarrow>
               (case with_suffix filepath ''.json.bak'' of
                  Inl e \<Rightarrow> ([UpdatedMsg feature_id passes], Inl e, files')
                | Inr backup_path \<Rightarrow>
                    (case bindE (py_get (JObj data') ''metadata'' (JObj [])) (\<lambda>meta.
                          bindE (py_get meta ''passing'' (JInt 0)) (\<lambda>p.
                          bindE (py_get meta ''total_features'' (JInt 0)) (\<lambda>t.
                          Inr (ProgressMsg p t)))) of
                       Inl e \<Rightarrow> ([UpdatedMsg feature_id passes, BackupSavedMsg backup_path], Inl e, files')
                     | Inr m \<Rightarrow>
                         ([UpdatedMsg feature_id passes, BackupSavedMsg backup_path, m],
                          Inr True, files')))))"

text \<open>
  \<^verbatim>\<open>update_feature_status\<close>: load, find, compare, and (unless it is a dry run) apply.
  Only \<^verbatim>\<open>FileNotFoundError\<close> and \<^verbatim>\<open>JSONDecodeError\<close> of the load are caught.
\<close>

definition update_feature_status ::
  "runtime \<Rightarrow> fs \<Rightarrow> path \<Rightarrow> string \<Rightarrow> bool \<Rightarrow> bool \<Rightarrow> message list \<times> (py_error + bool) \<times> fs" where
  "update_feature_status rt files filepath feature_id passes dry_run =
     (case load_feature_list rt files filepath of
        Inl e \<Rightarrow>
          if e = FileNotFoundError then ([FileNotFoundMsg filepath], Inr False, files)
          else if e = JSONDecodeError then ([InvalidJsonMsg filepath], Inr False, files)
          else ([], Inl e, files)
      | Inr data \<Rightarrow>
          (case find_feature data feature_id of
             Inl e \<Rightarrow> ([], Inl e, files)
           | Inr None \<Rightarrow> (case report_not_found data feature_id of (ms, r) \<Rightarrow> (ms, r, files))
           | Inr (Some (index, feature)) \<Rightarrow>
               (case py_get feature ''passes'' (JBool False) of
                  Inl e \<Rightarrow> ([], Inl e, files)
                | Inr current_status \<Rightarrow>
                    if py_eq_bool current_status passes
                    then ([AlreadyMarkedMsg feature_id passes], Inr True, files)
                    else
                      (case bindE (py_get feature ''description'' (JStr ''N/A'')) (\<lambda>d.
                            bindE (py_get feature ''category'' (JStr ''N/A'')) (\<lambda>c.
                            Inr [FeatureMsg feature_id, DescriptionMsg d, CategoryMsg c,
                                 ChangeMsg (py_truthy current_status) passes])) of
                         Inl e \<Rightarrow> ([FeatureMsg feature_id], Inl e, files)
                       | Inr shown \<Rightarrow>
                           if dry_run then (shown @ [DryRunMsg], Inr True, files)
                           else (case data of
                                   JObj kvs \<Rightarrow>
                                     (case apply_change rt files filepath feature_id passes kvs index of
                                        (ms, r, files') \<Rightarrow> (shown @ ms, r, files'))
                                 | _ \<Rightarrow> (shown, Inl TypeError, files))))))"

section \<open>show\_status.py\<close>

text \<open>
  \<^verbatim>\<open>priority_order.get(x, 4)\<close> on the table
  \<^verbatim>\<open>{'critical': 0, 'high': 1, 'medium': 2, 'low': 3}\<close>: a list or dict is unhashable and
  raises; any other value that is not one of the four keys gets the default.
\<close>

definition priority_order :: "json \<Rightarrow> py_error + nat" where
  "priority_order x =
     (case x of
        JStr s \<Rightarrow> Inr (if s = ''critical'' then 0 else if s = ''high'' then 1
                       else if s = ''medium'' then 2 else if s = ''low'' then 3 else 4)
      | JList xs \<Rightarrow> Inl TypeError
      | JObj kvs \<Rightarrow> Inl TypeError
      | _ \<Rightarrow> Inr 4)"

text \<open>The sort key \<^verbatim>\<open>lambda f: priority_order.get(f.get('priority', 'low'), 4)\<close>.\<close>

definition sort_rank :: "json \<Rightarrow> py_error + nat" where
  "sort_rank f = bindE (py_get f ''priority'' (JStr ''low'')) priority_order"

text \<open>\<^verbatim>\<open>[f for f in features if not f.get('passes', False)]\<close>.\<close>

fun failing_features :: "json list \<Rightarrow> py_error + json list" where
  "failing_features [] = Inr []"
| "failing_features (f # rest) =
     bindE (py_get f ''passes'' (JBool False)) (\<lambda>v.
     bindE (failing_features rest) (\<lambda>r.
     Inr (if \<not> py_truthy v then f # r else r)))"

text \<open>\<^verbatim>\<open>list.sort(key=...)\<close> computes every key first, in list order, then sorts stably.\<close>

fun sort_keys :: "json list \<Rightarrow> py_error + (nat \<times> json) list" where
  "sort_keys [] = Inr []"
| "sort_keys (f # rest) =
     bindE (sort_rank f) (\<lambda>k.
     bindE (sort_keys rest) (\<lambda>r.
     Inr ((k, f) # r)))"

text \<open>The \<open>limit\<close> of the source defaults to 5; a natural number here.\<close>

definition get_next_features :: "json \<Rightarrow> nat \<Rightarrow> py_error + json list" where
  "get_next_features data limit =
     bindE (py_get data ''features'' (JList [])) (\<lambda>features.
     bindE (py_iter features) (\<lambda>items.
     bindE (failing_features items) (\<lambda>failing.
     bindE (sort_keys failing) (\<lambda>keyed.
     Inr (take limit (map snd (sort_key fst keyed)))))))"

subsection \<open>Float arithmetic\<close>

text \<open>
  Python floats are IEEE 754 binary64: 53 significant bits, exponents down to the
  subnormal quantum 2^(-1074), round to nearest with ties to even, overflow from 2^1024
  on. \<open>round_double\<close> rounds an exact rational that way; \<open>bit_length\<close> is
  \<^verbatim>\<open>int.bit_length\<close> on positive integers.
\<close>

function bit_length :: "int \<Rightarrow> int" where
  "bit_length n = (if n \<le> 0 then 0 else 1 + bit_length (n div 2))"
  by pat_completeness auto
termination
  by (relation "measure nat") auto

definition pow2 :: "int \<Rightarrow> rat" where
  "pow2 e = (if 0 \<le> e then 2 ^ nat e else 1 / 2 ^ nat (- e))"

text \<open>For \<open>m > 0\<close>, the exponent \<open>e\<close> with 2^e \<le> m < 2^(e+1).\<close>

definition floor_log2 :: "rat \<Rightarrow> int" where
  "floor_log2 m =
     (case quotient_of m of (p, q) \<Rightarrow>
        let d = bit_length p - bit_length q
        in if pow2 d \<le> m then d else d - 1)"

definition round_half_even :: "rat \<Rightarrow> int" where
  "round_half_even x =
     (let f = \<lfloor>x\<rfloor>; r = x - of_int f
      in if r < 1 / 2 then f else if 1 / 2 < r then f + 1 else if even f then f else f + 1)"

definition round_double :: "rat \<Rightarrow> pyfloat" where
  "round_double x =
     (if x = 0 then Fin 0
      else let m = \<bar>x\<bar>;
               e = max (floor_log2 m) (- 1022);
               q = pow2 (e - 52);
               v = of_int (round_half_even (m / q)) * q
           in if pow2 1024 \<le> v then (if 0 < x then PosInf else NegInf)
              else Fin (if 0 < x then v else - v))"

text \<open>
  \<^verbatim>\<open>a / b\<close> on integers: \<^verbatim>\<open>ZeroDivisionError\<close> for a zero divisor, otherwise the
  correctly rounded quotient, or \<^verbatim>\<open>OverflowError\<close> when that is too large for a float.
\<close>

definition py_truediv :: "int \<Rightarrow> int \<Rightarrow> py_error + pyfloat" where
  "py_truediv a b =
     (if b = 0 then Inl ZeroDivisionError
      else case round_double (of_int a / of_int b) of
             Fin r \<Rightarrow> Inr (Fin r)
           | _ \<Rightarrow> Inl OverflowError)"

text \<open>The conversion of an integer operand to a float in mixed arithmetic.\<close>

definition py_float_of_int :: "int \<Rightarrow> py_error + pyfloat" where
  "py_float_of_int n =
     (case round_double (of_int n) of Fin r \<Rightarrow> Inr (Fin r) | _ \<Rightarrow> Inl OverflowError)"

text \<open>Float multiplication: rounded, overflowing to an infinity, never raising.\<close>

fun float_mul :: "pyfloat \<Rightarrow> pyfloat \<Rightarrow> pyfloat" where
  "float_mul NaN y = NaN"
| "float_mul x NaN = NaN"
| "float_mul (Fin a) (Fin b) = round_double (a * b)"
| "float_mul (Fin a) PosInf = (if a = 0 then NaN else if 0 < a then PosInf else NegInf)"
| "float_mul (Fin a) NegInf = (if a = 0 then NaN else if 0 < a then NegInf else PosInf)"
| "float_mul PosInf (Fin b) = (if b = 0 then NaN else if 0 < b then PosInf else NegInf)"
| "float_mul NegInf (Fin b) = (if b = 0 then NaN else if 0 < b then NegInf else PosInf)"
| "float_mul PosInf PosInf = PosInf"
| "float_mul PosInf NegInf = NegInf"
| "float_mul NegInf PosInf = NegInf"
| "float_mul NegInf NegInf = PosInf"

text \<open>\<^verbatim>\<open>n * x\<close> for an integer \<open>n\<close> and a float \<open>x\<close>.\<close>

definition py_mul_int_float :: "int \<Rightarrow> pyfloat \<Rightarrow> py_error + pyfloat" where
  "py_mul_int_float n x = bindE (py_float_of_int n) (\<lambda>y. Inr (float_mul y x))"

text \<open>\<^verbatim>\<open>int(x)\<close> truncates towards zero and rejects NaN and the infinities.\<close>

definition py_int :: "pyfloat \<Rightarrow> py_error + int" where
  "py_int x =
     (case x of
        Fin r \<Rightarrow> Inr (if 0 \<le> r then \<lfloor>r\<rfloor> else \<lceil>r\<rceil>)
      | NaN \<Rightarrow> Inl ValueError
      | _ \<Rightarrow> Inl OverflowError)"

text \<open>
  The length of \<^verbatim>\<open>c * n\<close> for a one-character string: a negative count gives the empty
  string; a count beyond \<^verbatim>\<open>sys.maxsize\<close> (2^63 - 1 on a 64-bit build) raises
  \<^verbatim>\<open>OverflowError\<close>. Exhausted memory is not modelled.
\<close>

definition py_repeat :: "int \<Rightarrow> py_error + nat" where
  "py_repeat n = (if 2 ^ 63 - 1 < n then Inl OverflowError else Inr (nat n))"

subsection \<open>The progress bar\<close>

text \<open>
  The line \<^verbatim>\<open>print_progress_bar\<close> prints: the number of filled and of empty cells, the
  two counts and the percentage \<^verbatim>\<open>pct*100\<close> (the literal \<open>100\<close> converts to the float
  100.0 exactly). Nothing is printed, and nothing is divided, when \<open>total\<close> is zero.
\<close>

datatype progress_line = ProgressLine nat nat int int pyfloat

definition print_progress_bar :: "int \<Rightarrow> int \<Rightarrow> int \<Rightarrow> py_error + progress_line option" where
  "print_progress_bar passing total_n width =
     (if total_n = 0 then Inr None
      else bindE (py_truediv passing total_n) (\<lambda>pct.
           bindE (py_mul_int_float width pct) (\<lambda>x.
           bindE (py_int x) (\<lambda>filled.
           bindE (py_repeat filled) (\<lambda>n_filled.
           bindE (py_repeat (width - filled)) (\<lambda>n_empty.
           Inr (Some (ProgressLine n_filled n_empty passing total_n (float_mul pct (Fin 100))))))))))"

section \<open>validate\_features.py\<close>

text \<open>
  An error message is a constructor carrying the values its format string interpolates.
  A feature is named in messages by \<^verbatim>\<open>feature.get('id', f'index-{index}')\<close>.
\<close>

datatype label = IdLabel json | IndexLabel nat

datatype verror =
    FileNotFoundErr path
  | InvalidJsonErr
  | MissingFeaturesErr
  | FeaturesNotArrayErr
  | DuplicateIdErr json
  | MissingFieldErr label string
  | NotStringErr label string
  | BadPriorityErr label
  | StepsNotArrayErr label
  | StepsEmptyErr label
  | StepNotStringErr label nat
  | PassesNotBoolErr label
  | DescriptionTooShortErr label
  | MetaMissingFieldErr string
  | MetaSumErr json json json
  | MetaTotalErr json nat
  | MetaPassingErr json nat
  | MetaFailingErr json nat

record stats =
  stats_total :: nat
  stats_passing :: nat
  stats_failing :: nat
  stats_by_category :: "(json \<times> nat) list"
  stats_by_priority :: "(json \<times> nat) list"

definition is_str :: "json \<Rightarrow> bool" where
  "is_str x = (case x of JStr s \<Rightarrow> True | _ \<Rightarrow> False)"

definition validate_feature :: "(string \<times> json) list \<Rightarrow> nat \<Rightarrow> py_error + verror list" where
  "validate_feature feature index =
     (let feature_id = (case map_of feature ''id'' of Some v \<Rightarrow> IdLabel v | None \<Rightarrow> IndexLabel index);
          required = [''id'', ''category'', ''description'', ''priority'', ''steps'', ''passes''];
          e_required = map (MissingFieldErr feature_id) (filter (\<lambda>field. map_of feature field = None) required);
          e_string = (\<lambda>field. case map_of feature field of
                        None \<Rightarrow> []
                      | Some v \<Rightarrow> if is_str v then [] else [NotStringErr feature_id field]);
          valid_priorities = [''critical'', ''high'', ''medium'', ''low''];
          e_priority = (case map_of feature ''priority'' of
                          None \<Rightarrow> []
                        | Some v \<Rightarrow> if v \<in> set (map JStr valid_priorities) then []
                                    else [BadPriorityErr feature_id]);
          e_steps = (case map_of feature ''steps'' of
                       None \<Rightarrow> []
                     | Some (JList steps) \<Rightarrow>
                         if steps = [] then [StepsEmptyErr feature_id]
                         else map (\<lambda>(i, step). StepNotStringErr feature_id (i + 1))
                                (filter (\<lambda>(i, step). \<not> is_str step) (enumerate 0 steps))
                     | Some _ \<Rightarrow> [StepsNotArrayErr feature_id]);
          e_passes = (case map_of feature ''passes'' of
                        None \<Rightarrow> []
                      | Some (JBool b) \<Rightarrow> []
                      | Some _ \<Rightarrow> [PassesNotBoolErr feature_id])
      in bindE (case map_of feature ''description'' of
                  None \<Rightarrow> Inr []
                | Some d \<Rightarrow> bindE (py_len d) (\<lambda>n.
                    Inr (if n < 10 then [DescriptionTooShortErr feature_id] else [])))
           (\<lambda>e_short.
         Inr (e_required @ e_string ''id'' @ e_string ''category'' @ e_string ''description''
              @ e_priority @ e_steps @ e_passes @ e_short)))"

text \<open>\<^verbatim>\<open>sub in s\<close> on strings.\<close>

fun py_substring :: "string \<Rightarrow> string \<Rightarrow> bool" where
  "py_substring sub [] = (sub = [])"
| "py_substring sub (c # cs) = (take (length sub) (c # cs) = sub \<or> py_substring sub cs)"

text \<open>\<^verbatim>\<open>k in x\<close> for a string \<open>k\<close>: a key of a dict, an element of a list, a substring of a string.\<close>

definition py_contains :: "json \<Rightarrow> string \<Rightarrow> py_error + bool" where
  "py_contains x k =
     (case x of
        JObj kvs \<Rightarrow> Inr (map_of kvs k \<noteq> None)
      | JList xs \<Rightarrow> Inr (JStr k \<in> set xs)
      | JStr s \<Rightarrow> Inr (py_substring k s)
      | _ \<Rightarrow> Inl TypeError)"

text \<open>\<^verbatim>\<open>x[k]\<close> for a string \<open>k\<close>.\<close>

definition py_getitem :: "json \<Rightarrow> string \<Rightarrow> py_error + json" where
  "py_getitem x k =
     (case x of
        JObj kvs \<Rightarrow> (case map_of kvs k of None \<Rightarrow> Inl KeyError | Some v \<Rightarrow> Inr v)
      | _ \<Rightarrow> Inl TypeError)"

text \<open>
  \<^verbatim>\<open>passing + failing != total\<close>: exact on integers (and bools, which are integers).
  On any other operands the interpreter's \<^verbatim>\<open>+\<close> and \<^verbatim>\<open>!=\<close> decide (float rounding,
  concatenation, \<^verbatim>\<open>TypeError\<close>); that is the parameter \<open>other_sum_ne\<close>.
\<close>

definition as_int :: "json \<Rightarrow> int option" where
  "as_int x = (case x of JInt i \<Rightarrow> Some i | JBool b \<Rightarrow> Some (if b then 1 else 0) | _ \<Rightarrow> None)"

definition py_sum_ne ::
  "(json \<Rightarrow> json \<Rightarrow> json \<Rightarrow> py_error + bool) \<Rightarrow> json \<Rightarrow> json \<Rightarrow> json \<Rightarrow> py_error + bool" where
  "py_sum_ne other_sum_ne a b c =
     (case (as_int a, as_int b, as_int c) of
        (Some x, Some y, Some z) \<Rightarrow> Inr (x + y \<noteq> z)
      | _ \<Rightarrow> other_sum_ne a b c)"

definition validate_metadata ::
  "(json \<Rightarrow> json \<Rightarrow> json \<Rightarrow> py_error + bool) \<Rightarrow> json \<Rightarrow> py_error + verror list" where
  "validate_metadata other_sum_ne metadata =
     (let required = [''project_name'', ''total_features'', ''passing'', ''failing''] in
      bindE (py_contains metadata ''project_name'') (\<lambda>c1.
      bindE (py_contains metadata ''total_features'') (\<lambda>c2.
      bindE (py_contains metadata ''passing'') (\<lambda>c3.
      bindE (py_contains metadata ''failing'') (\<lambda>c4.
      let e_required = map MetaMissingFieldErr
            (map snd (filter (\<lambda>(c, field). \<not> c) (zip [c1, c2, c3, c4] required)))
      in if c2 \<and> c3 \<and> c4 then
           bindE (py_getitem metadata ''total_features'') (\<lambda>total_v.
           bindE (py_getitem metadata ''passing'') (\<lambda>passing.
           bindE (py_getitem metadata ''failing'') (\<lambda>failing.
           bindE (py_sum_ne other_sum_ne passing failing total_v) (\<lambda>ne.
           Inr (e_required @ (if ne then [MetaSumErr passing failing total_v] else []))))))
         else Inr e_required)))))"

text \<open>
  Equality of two hashable values as members of a set or keys of a dict: numbers
  (bools included) by value, everything else structurally. The NaN that \<^verbatim>\<open>json.load\<close>
  returns is one shared object, which a set finds again by identity.
\<close>

definition num_val :: "json \<Rightarrow> pyfloat option" where
  "num_val x =
     (case x of
        JBool b \<Rightarrow> Some (Fin (if b then 1 else 0))
      | JInt i \<Rightarrow> Some (Fin (of_int i))
      | JFloat v \<Rightarrow> Some v
      | _ \<Rightarrow> None)"

definition py_key_eq :: "json \<Rightarrow> json \<Rightarrow> bool" where
  "py_key_eq a b =
     (case (num_val a, num_val b) of
        (Some x, Some y) \<Rightarrow> x = y
      | (None, None) \<Rightarrow> a = b
      | _ \<Rightarrow> False)"

definition hashable :: "json \<Rightarrow> bool" where
  "hashable x = (case x of JList xs \<Rightarrow> False | JObj kvs \<Rightarrow> False | _ \<Rightarrow> True)"

text \<open>\<^verbatim>\<open>d[k] = d.get(k, 0) + 1\<close> on a counter dict keyed by JSON values.\<close>

fun bump :: "json \<Rightarrow> (json \<times> nat) list \<Rightarrow> (json \<times> nat) list" where
  "bump k [] = [(k, 1)]"
| "bump k ((k', n) # rest) = (if py_key_eq k' k then (k', n + 1) # rest else (k', n) # bump k rest)"

definition bump_count :: "json \<Rightarrow> (json \<times> nat) list \<Rightarrow> py_error + (json \<times> nat) list" where
  "bump_count k counts = (if hashable k then Inr (bump k counts) else Inl TypeError)"

text \<open>
  One iteration of the loop over \<^verbatim>\<open>enumerate(data['features'])\<close>, on the state
  \<open>(seen_ids, errors, stats)\<close>, in the three blocks the source marks with comments:
  check for duplicate ids, validate the feature, collect stats.
\<close>

definition check_duplicate_id ::
  "json \<Rightarrow> json list \<times> verror list \<Rightarrow> py_error + json list \<times> verror list" where
  "check_duplicate_id fid st =
     (case st of (seen_ids, errors) \<Rightarrow>
        if py_truthy fid then
          (if hashable fid then
             Inr (if list_ex (\<lambda>s. py_key_eq s fid) seen_ids
                  then (seen_ids, errors @ [DuplicateIdErr fid])
                  else (fid # seen_ids, errors))
           else Inl TypeError)
        else Inr (seen_ids, errors))"

definition collect_stats :: "json \<Rightarrow> stats \<Rightarrow> py_error + stats" where
  "collect_stats feature stats =
     bindE (py_get feature ''passes'' JNull) (\<lambda>p.
     let stats1 = (if py_truthy p then stats\<lparr>stats_passing := stats_passing stats + 1\<rparr>
                   else stats\<lparr>stats_failing := stats_failing stats + 1\<rparr>);
         stats2 = stats1\<lparr>stats_total := stats_total stats1 + 1\<rparr>
     in
     bindE (py_get feature ''category'' (JStr ''uncategorized'')) (\<lambda>cat.
     bindE (bump_count cat (stats_by_category stats2)) (\<lambda>by_cat.
     bindE (py_get feature ''priority'' (JStr ''unknown'')) (\<lambda>pri.
     bindE (bump_count pri (stats_by_priority stats2)) (\<lambda>by_pri.
     Inr (stats2\<lparr>stats_by_category := by_cat, stats_by_priority := by_pri\<rparr>))))))"

definition validate_step ::
  "nat \<Rightarrow> json \<Rightarrow> json list \<times> verror list \<times> stats \<Rightarrow> py_error + json list \<times> verror list \<times> stats" where
  "validate_step i feature st =
     (case st of (seen_ids, errors, stats) \<Rightarrow>
      bindE (py_get feature ''id'' JNull) (\<lambda>fid.
      bindE (check_duplicate_id fid (seen_ids, errors)) (\<lambda>(seen_ids1, errors1).
      bindE (case feature of JObj kvs \<Rightarrow> validate_feature kvs i | _ \<Rightarrow> Inl AttributeError) (\<lambda>feature_errors.
      bindE (collect_stats feature stats) (\<lambda>stats1.
      Inr (seen_ids1, errors1 @ feature_errors, stats1))))))"

fun validate_loop ::
  "nat \<Rightarrow> json list \<Rightarrow> json list \<times> verror list \<times> stats \<Rightarrow> py_error + json list \<times> verror list \<times> stats" where
  "validate_loop i [] st = Inr st"
| "validate_loop i (feature # rest) st = bindE (validate_step i feature st) (validate_loop (Suc i) rest)"

text \<open>\<^verbatim>\<open>x != n\<close> for an integer \<open>n\<close>.\<close>

definition py_ne_int :: "json \<Rightarrow> nat \<Rightarrow> bool" where
  "py_ne_int x n = (num_val x \<noteq> Some (Fin (of_nat n)))"

definition empty_stats :: stats where
  "empty_stats = \<lparr>stats_total = 0, stats_passing = 0, stats_failing = 0,
                   stats_by_category = [], stats_by_priority = []\<rparr>"

text \<open>The cross-check of \<^verbatim>\<open>data['metadata']\<close> against the counts of the loop.\<close>

definition check_metadata ::
  "(json \<Rightarrow> json \<Rightarrow> json \<Rightarrow> py_error + bool) \<Rightarrow> json \<Rightarrow> stats \<Rightarrow> py_error + verror list" where
  "check_metadata other_sum_ne meta stats =
     bindE (validate_metadata other_sum_ne meta) (\<lambda>metadata_errors.
     bindE (py_get meta ''total_features'' JNull) (\<lambda>t.
     bindE (py_get meta ''passing'' JNull) (\<lambda>p.
     bindE (py_get meta ''failing'' JNull) (\<lambda>f.
     Inr (metadata_errors
          @ (if py_ne_int t (stats_total stats) then [MetaTotalErr t (stats_total stats)] else [])
          @ (if py_ne_int p (stats_passing stats) then [MetaPassingErr p (stats_passing stats)] else [])
          @ (if py_ne_int f (stats_failing stats) then [MetaFailingErr f (stats_failing stats)] else []))))))"

definition validate_feature_list ::
  "runtime \<Rightarrow> (json \<Rightarrow> json \<Rightarrow> json \<Rightarrow> py_error + bool) \<Rightarrow> fs \<Rightarrow> path
     \<Rightarrow> py_error + bool \<times> verror list \<times> stats" where
  "validate_feature_list rt other_sum_ne files filepath =
     (case files filepath of
        None \<Rightarrow> Inr (False, [FileNotFoundErr filepath], empty_stats)
      | Some text_in \<Rightarrow>
     (case json_loads rt text_in of
        None \<Rightarrow> Inr (False, [InvalidJsonErr], empty_stats)
      | Some data \<Rightarrow>
          bindE (py_contains data ''features'') (\<lambda>has_features.
          if \<not> has_features then Inr (False, [MissingFeaturesErr], empty_stats)
          else
          bindE (py_getitem data ''features'') (\<lambda>features.
          case features of
            JList items \<Rightarrow>
              bindE (validate_loop 0 items ([], [], empty_stats)) (\<lambda>(seen_ids, errors, stats).
              bindE (py_contains data ''metadata'') (\<lambda>has_metadata.
              bindE (if has_metadata
                     then bindE (py_getitem data ''metadata'') (\<lambda>meta. check_metadata other_sum_ne meta stats)
                     else Inr []) (\<lambda>meta_errors.
              Inr (errors @ meta_errors = [], errors @ meta_errors, stats))))
          | _ \<Rightarrow> Inr (False, [FeaturesNotArrayErr], empty_stats)))))"

text \<open>
  The two percentages \<^verbatim>\<open>print_report\<close> prints,
  \<^verbatim>\<open>stats['passing']/max(stats['total'],1)*100\<close> and the same for \<^verbatim>\<open>failing\<close>.
\<close>

definition print_report_percentages :: "stats \<Rightarrow> py_error + pyfloat \<times> pyfloat" where
  "print_report_percentages stats =
     bindE (py_truediv (int (stats_passing stats)) (max (int (stats_total stats)) 1)) (\<lambda>p.
     bindE (py_truediv (int (stats_failing stats)) (max (int (stats_total stats)) 1)) (\<lambda>f.
     Inr (float_mul p (Fin 100), float_mul f (Fin 100))))"

section \<open>Vocabulary for stating properties\<close>

text \<open>What the scripts read off a feature: whether it is a dict, its \<^verbatim>\<open>f.get('passes')\<close>
  truth value, its \<^verbatim>\<open>f.get('id')\<close>.\<close>

definition is_obj :: "json \<Rightarrow> bool" where
  "is_obj x = (case x of JObj kvs \<Rightarrow> True | _ \<Rightarrow> False)"

definition feature_passes :: "json \<Rightarrow> bool" where
  "feature_passes f = (case f of JObj kvs \<Rightarrow> py_truthy (dict_get kvs ''passes'' JNull) | _ \<Rightarrow> False)"

definition feature_id :: "json \<Rightarrow> json" where
  "feature_id f = (case f of JObj kvs \<Rightarrow> dict_get kvs ''id'' JNull | _ \<Rightarrow> JNull)"

text \<open>A feature whose description, if it has one, is a string, as the data model declares.\<close>

definition description_ok :: "json \<Rightarrow> bool" where
  "description_ok f =
     (case f of
        JObj kvs \<Rightarrow> (case map_of kvs ''description'' of
                      None \<Rightarrow> True | Some (JStr s) \<Rightarrow> True | Some _ \<Rightarrow> False)
      | _ \<Rightarrow> False)"

text \<open>
  A run of \<^verbatim>\<open>update_feature.py\<close> reports a change by its
  \<^verbatim>\<open>Updated feature ...\<close> line; a run that changed nothing prints no such line.
\<close>

fun is_updated :: "message \<Rightarrow> bool" where
  "is_updated (UpdatedMsg f b) = True"
| "is_updated _ = False"

definition changed :: "message list \<Rightarrow> bool" where
  "changed ms = list_ex is_updated ms"

text \<open>The ids shown in the listing of available features.\<close>

fun shown_ids :: "message list \<Rightarrow> json list" where
  "shown_ids [] = []"
| "shown_ids (AvailableMsg s i d # ms) = i # shown_ids ms"
| "shown_ids (m # ms) = shown_ids ms"

text \<open>The listing line of one well-typed feature.\<close>

definition available_line :: "json \<Rightarrow> message" where
  "available_line f =
     (case f of
        JObj kvs \<Rightarrow>
          AvailableMsg (py_truthy (dict_get kvs ''passes'' JNull)) (dict_get kvs ''id'' JNull)
            (case dict_get kvs ''description'' (JStr []) of JStr s \<Rightarrow> JStr (take 50 s) | d \<Rightarrow> d)
      | _ \<Rightarrow> AvailableHeaderMsg)"

text \<open>
  The rank the selector sorts by, read off the source: a feature without a \<open>priority\<close>
  is ranked as \<^verbatim>\<open>'low'\<close> (the default of \<^verbatim>\<open>f.get('priority', 'low')\<close>); a priority that is
  present but not one of the four names gets the table's default 4.
\<close>

definition priority_rank :: "json \<Rightarrow> nat" where
  "priority_rank f =
     (case f of
        JObj kvs \<Rightarrow>
          (case map_of kvs ''priority'' of
             None \<Rightarrow> 3
           | Some (JStr s) \<Rightarrow> (if s = ''critical'' then 0 else if s = ''high'' then 1
                               else if s = ''medium'' then 2 else if s = ''low'' then 3 else 4)
           | Some _ \<Rightarrow> 4)
      | _ \<Rightarrow> 4)"

text \<open>A feature whose priority, if present, can be looked up in a dict (is not a list or dict).\<close>

definition priority_hashable :: "json \<Rightarrow> bool" where
  "priority_hashable f =
     (case f of
        JObj kvs \<Rightarrow> (case map_of kvs ''priority'' of
                      Some (JList xs) \<Rightarrow> False | Some (JObj o1) \<Rightarrow> False | _ \<Rightarrow> True)
      | _ \<Rightarrow> True)"

text \<open>
  The selection as the specification words it, for comparison with the source: rank
  critical=0, high=1, medium=2, low=3 and any unrecognized or missing priority=4; the
  failing features are sorted stably by that rank and the first one is returned.
\<close>

definition spec_priority_rank :: "json \<Rightarrow> nat" where
  "spec_priority_rank f =
     (case f of
        JObj kvs \<Rightarrow>
          (case map_of kvs ''priority'' of
             Some (JStr s) \<Rightarrow> (if s = ''critical'' then 0 else if s = ''high'' then 1
                               else if s = ''medium'' then 2 else if s = ''low'' then 3 else 4)
           | _ \<Rightarrow> 4)
      | _ \<Rightarrow> 4)"

definition spec_next_feature :: "json list \<Rightarrow> json option" where
  "spec_next_feature items =
     (case sort_key spec_priority_rank (filter (\<lambda>f. \<not> feature_passes f) items) of
        [] \<Rightarrow> None
      | f # rest \<Rightarrow> Some f)"

text \<open>The ids named by the duplicate-id errors of a report, in order.\<close>

fun duplicate_ids :: "verror list \<Rightarrow> json list" where
  "duplicate_ids [] = []"
| "duplicate_ids (DuplicateIdErr v # es) = v # duplicate_ids es"
| "duplicate_ids (e # es) = duplicate_ids es"

text \<open>
  The ids a left-to-right pass over the features reports as already seen, given the ids
  seen so far: a pure rendering of the validator's duplicate check, used to relate the
  error list of a run to the feature list.
\<close>

fun dup_scan :: "json list \<Rightarrow> json list \<Rightarrow> json list" where
  "dup_scan seen [] = []"
| "dup_scan seen (f # fs) =
     (if py_truthy (feature_id f) then
        (if list_ex (\<lambda>s. py_key_eq s (feature_id f)) seen
         then feature_id f # dup_scan seen fs
         else dup_scan (feature_id f # seen) fs)
      else dup_scan seen fs)"

text \<open>
  Ledgers on which the validator raises nothing: every feature is an object whose id, if
  truthy, is hashable, whose description, if present, has a length, and whose category
  and priority are hashable; the metadata, if present, is an object whose three counters,
  when all are present, are integers.
\<close>

definition sized :: "json \<Rightarrow> bool" where
  "sized x = (case x of JStr s \<Rightarrow> True | JList xs \<Rightarrow> True | JObj kvs \<Rightarrow> True | _ \<Rightarrow> False)"

definition feature_checkable :: "json \<Rightarrow> bool" where
  "feature_checkable f =
     (case f of
        JObj kvs \<Rightarrow>
          (if py_truthy (dict_get kvs ''id'' JNull) then hashable (dict_get kvs ''id'' JNull) else True) \<and>
          (case map_of kvs ''description'' of None \<Rightarrow> True | Some d \<Rightarrow> sized d) \<and>
          hashable (dict_get kvs ''category'' (JStr ''uncategorized'')) \<and>
          hashable (dict_get kvs ''priority'' (JStr ''unknown''))
      | _ \<Rightarrow> False)"

definition metadata_checkable :: "(string \<times> json) list \<Rightarrow> bool" where
  "metadata_checkable kvs =
     (case map_of kvs ''metadata'' of
        None \<Rightarrow> True
      | Some (JObj m) \<Rightarrow>
          (case (map_of m ''total_features'', map_of m ''passing'', map_of m ''failing'') of
             (Some t, Some a, Some b) \<Rightarrow> as_int t \<noteq> None \<and> as_int a \<noteq> None \<and> as_int b \<noteq> None
           | _ \<Rightarrow> True)
      | Some _ \<Rightarrow> False)"

section \<open>Example ledgers\<close>

text \<open>The two-feature ledger of the specification's scenarios, in a file
  \<^verbatim>\<open>feature_list.json\<close>, with a toy parser and printer.\<close>

definition example_features :: "json list" where
  "example_features =
     [JObj [(''id'', JStr ''F001''), (''priority'', JStr ''high''), (''passes'', JBool False)],
      JObj [(''id'', JStr ''F002''), (''priority'', JStr ''critical''), (''passes'', JBool False)]]"

definition example_ledger :: json where
  "example_ledger = JObj [(''features'', JList example_features)]"

definition example_path :: path where
  "example_path = Path [] ''feature_list.json''"

text \<open>A failing feature without a priority ahead of a low-priority one.\<close>

definition unranked_features :: "json list" where
  "unranked_features =
     [JObj [(''id'', JStr ''U001''), (''passes'', JBool False)],
      JObj [(''id'', JStr ''L001''), (''priority'', JStr ''low''), (''passes'', JBool False)]]"

text \<open>A ledger whose only feature has nothing but an id.\<close>

definition bare_features :: "json list" where
  "bare_features = [JObj [(''id'', JStr ''B001'')]]"

definition bare_ledger :: json where
  "bare_ledger = JObj [(''features'', JList bare_features)]"

definition bare_path :: path where
  "bare_path = Path [] ''bare.json''"

text \<open>Ledgers for the validator: two and three complete features sharing the id
  \<^verbatim>\<open>F001\<close>, three features without a usable id, and a ledger with no feature.\<close>

definition complete_feature :: "string \<Rightarrow> string \<Rightarrow> json" where
  "complete_feature fid description =
     JObj [(''id'', JStr fid), (''category'', JStr ''core''), (''description'', JStr description),
           (''priority'', JStr ''high''), (''steps'', JList [JStr ''run the check'']),
           (''passes'', JBool False)]"

definition twin_features :: "json list" where
  "twin_features = [complete_feature ''F001'' ''first feature'', complete_feature ''F001'' ''second feature'']"

definition triple_features :: "json list" where
  "triple_features =
     [complete_feature ''F001'' ''first feature'', complete_feature ''F001'' ''second feature'',
      complete_feature ''F001'' ''third feature'']"

definition nameless_features :: "json list" where
  "nameless_features =
     [JObj [(''id'', JNull), (''passes'', JBool False)],
      JObj [(''id'', JStr []), (''passes'', JBool False)],
      JObj [(''passes'', JBool False)]]"

definition twin_path :: path where "twin_path = Path [] ''twin.json''"
definition triple_path :: path where "triple_path = Path [] ''triple.json''"
definition nameless_path :: path where "nameless_path = Path [] ''nameless.json''"
definition empty_path :: path where "empty_path = Path [] ''empty.json''"

definition example_runtime :: runtime where
  "example_runtime =
     \<lparr>json_loads = (\<lambda>s. if s = ''ledger-text'' then Some example_ledger
                         else if s = ''bare-text'' then Some bare_ledger
                         else if s = ''twin-text'' then Some (JObj [(''features'', JList twin_features)])
                         else if s = ''triple-text'' then Some (JObj [(''features'', JList triple_features)])
                         else if s = ''nameless-text'' then Some (JObj [(''features'', JList nameless_features)])
                         else if s = ''empty-text'' then Some (JObj [(''features'', JList [])])
                         else None),
      json_dumps = (\<lambda>d. if d = example_ledger then ''ledger-text'' else ''new-text''),
      now_isoformat = ''2025-01-01T00:00:00'',
      io_fault = NoFault\<rparr>"

definition example_files :: fs where
  "example_files =
     (\<lambda>q. if q = example_path then Some ''ledger-text''
          else if q = bare_path then Some ''bare-text''
          else if q = twin_path then Some ''twin-text''
          else if q = triple_path then Some ''triple-text''
          else if q = nameless_path then Some ''nameless-text''
          else if q = empty_path then Some ''empty-text''
          else None)"

text \<open>In the examples no metadata is compared, so the interpreter's generic
  \<^verbatim>\<open>a + b != c\<close> is never consulted.\<close>

definition example_sum_ne :: "json \<Rightarrow> json \<Rightarrow> json \<Rightarrow> py_error + bool" where
  "example_sum_ne a b c = Inl TypeError"

text \<open>What marking \<open>F002\<close> as passing prints and leaves on disk.\<close>

definition example_messages :: "message list" where
  "example_messages =
     [FeatureMsg ''F002'', DescriptionMsg (JStr ''N/A''), CategoryMsg (JStr ''N/A''),
      ChangeMsg False True, UpdatedMsg ''F002'' True,
      BackupSavedMsg (Path [] ''feature_list.json.bak''), ProgressMsg (JInt 1) (JInt 2)]"

definition example_files_after :: fs where
  "example_files_after =
     example_files(Path [] ''feature_list.json.bak'' \<mapsto> ''ledger-text'', example_path \<mapsto> ''new-text'')"

text \<open>What the validator reports on the three features without a usable id.\<close>

definition nameless_errors :: "verror list" where
  "nameless_errors =
     [MissingFieldErr (IdLabel JNull) ''category'',
      MissingFieldErr (IdLabel JNull) ''description'',
      MissingFieldErr (IdLabel JNull) ''priority'',
      MissingFieldErr (IdLabel JNull) ''steps'',
      NotStringErr (IdLabel JNull) ''id'',
      MissingFieldErr (IdLabel (JStr [])) ''category'',
      MissingFieldErr (IdLabel (JStr [])) ''description'',
      MissingFieldErr (IdLabel (JStr [])) ''priority'',
      MissingFieldErr (IdLabel (JStr [])) ''steps'',
      MissingFieldErr (IndexLabel 2) ''id'',
      MissingFieldErr (IndexLabel 2) ''category'',
      MissingFieldErr (IndexLabel 2) ''description'',
      MissingFieldErr (IndexLabel 2) ''priority'',
      MissingFieldErr (IndexLabel 2) ''steps'']"

definition nameless_stats :: stats where
  "nameless_stats =
     \<lparr>stats_total = 3, stats_passing = 0, stats_failing = 3,
        stats_by_category = [(JStr ''uncategorized'', 3)],
        stats_by_priority = [(JStr ''unknown'', 3)]\<rparr>"

definition twin_stats :: stats where
  "twin_stats =
     \<lparr>stats_total = 2, stats_passing = 0, stats_failing = 2,
        stats_by_category = [(JStr ''core'', 2)], stats_by_priority = [(JStr ''high'', 2)]\<rparr>"

definition bare_stats :: stats where
  "bare_stats =
     \<lparr>stats_total = 1, stats_passing = 0, stats_failing = 1,
        stats_by_category = [(JStr ''uncategorized'', 1)],
        stats_by_priority = [(JStr ''unknown'', 1)]\<rparr>"

text \<open>The report on the bare ledger, and the documents \<^verbatim>\<open>update_metadata\<close> makes of the
  bare ledger and of the ledger without features.\<close>

definition bare_errors :: "verror list" where
  "bare_errors =
     [MissingFieldErr (IdLabel (JStr ''B001'')) ''category'',
      MissingFieldErr (IdLabel (JStr ''B001'')) ''description'',
      MissingFieldErr (IdLabel (JStr ''B001'')) ''priority'',
      MissingFieldErr (IdLabel (JStr ''B001'')) ''steps'',
      MissingFieldErr (IdLabel (JStr ''B001'')) ''passes'']"

definition bare_updated :: "(string \<times> json) list" where
  "bare_updated =
     [(''features'', JList bare_features),
      (''metadata'', JObj [(''total_features'', JInt 1), (''passing'', JInt 0), (''failing'', JInt 1),
                            (''last_updated'', JStr ''2025-01-01T00:00:00'')])]"

definition empty_updated :: "(string \<times> json) list" where
  "empty_updated =
     [(''features'', JList []),
      (''metadata'', JObj [(''total_features'', JInt 0), (''passing'', JInt 0), (''failing'', JInt 0),
                            (''last_updated'', JStr ''2025-01-01T00:00:00'')])]"

section \<open>Basic facts about the model\<close>

lemma map_of_dict_set: "map_of (dict_set k v kvs) = (map_of kvs)(k \<mapsto> v)"
  by (induction kvs) (auto simp: fun_eq_iff)

lemma bindE_Inr_iff: "bindE m f = Inr y \<longleftrightarrow> (\<exists>x. m = Inr x \<and> f x = Inr y)"
  by (cases m) (auto simp: bindE_def)

lemma bindE_Inr: "bindE (Inr x) f = f x"
  by (simp add: bindE_def)

lemma py_get_Inr_iff: "py_get x k d = Inr v \<longleftrightarrow> (\<exists>kvs. x = JObj kvs \<and> v = dict_get kvs k d)"
  by (cases x) (auto simp: py_get_def)

lemma count_passes_Inr:
  "count_passes want items = Inr n \<Longrightarrow>
     list_all is_obj items \<and> n = length (filter (\<lambda>f. feature_passes f = want) items)"
  by (induction items arbitrary: n)
     (auto simp: py_get_Inr_iff feature_passes_def is_obj_def split: sum.splits if_splits)

lemma count_passes_total:
  "list_all is_obj items \<Longrightarrow>
     count_passes want items = Inr (length (filter (\<lambda>f. feature_passes f = want) items))"
  by (induction items)
     (auto simp: py_get_def feature_passes_def is_obj_def split: json.splits)

lemma find_loop_Some:
  "find_loop fid i xs = Inr (Some (k, f)) \<Longrightarrow>
     i \<le> k \<and> k - i < length xs \<and> xs ! (k - i) = f \<and>
     (\<exists>kvs. f = JObj kvs \<and> map_of kvs ''id'' = Some (JStr fid))"
proof (induction xs arbitrary: i)
  case Nil then show ?case by simp
next
  case (Cons x xs)
  show ?case
  proof (cases "py_get x ''id'' JNull = Inr (JStr fid)")
    case True
    with Cons.prems show ?thesis
      by (auto simp: py_get_Inr_iff dict_get_def split: option.splits)
  next
    case False
    with Cons.prems have "find_loop fid (Suc i) xs = Inr (Some (k, f))"
      by (auto split: sum.splits if_splits)
    from Cons.IH[OF this] show ?thesis
      by (auto simp: Suc_diff_Suc less_Suc_eq_le)
  qed
qed

lemma set_passes_Inr:
  assumes "set_passes data index passes = Inr d1"
  shows "\<exists>xs fkv. map_of data ''features'' = Some (JList xs) \<and> index < length xs \<and>
           xs ! index = JObj fkv \<and>
           d1 = dict_set ''features'' (JList (xs[index := JObj (dict_set ''passes'' (JBool passes) fkv)])) data"
  using assms
  by (auto simp: set_passes_def bindE_Inr_iff py_setitem_def
           split: option.splits json.splits if_splits)

lemma py_setitem_Inr_iff:
  "py_setitem x k v = Inr y \<longleftrightarrow> (\<exists>kvs. x = JObj kvs \<and> y = JObj (dict_set k v kvs))"
  by (cases x) (auto simp: py_setitem_def)

lemma update_metadata_Inr:
  assumes "update_metadata rt d = Inr d'" and "map_of d ''features'' = Some (JList items)"
  shows "\<exists>meta. map_of d' = (map_of d)(''metadata'' \<mapsto> JObj meta) \<and> list_all is_obj items \<and>
     map_of meta ''total_features'' = Some (JInt (int (length items))) \<and>
     map_of meta ''passing'' = Some (JInt (int (length (filter (\<lambda>f. feature_passes f = True) items)))) \<and>
     map_of meta ''failing'' = Some (JInt (int (length (filter (\<lambda>f. feature_passes f = False) items)))) \<and>
     map_of meta ''last_updated'' = Some (JStr (now_isoformat rt))"
proof -
  define d1 where "d1 = (if map_of d ''metadata'' = None then dict_set ''metadata'' (JObj []) d else d)"
  have f1: "dict_get d1 ''features'' (JList []) = JList items"
    using assms(2) by (simp add: d1_def dict_get_def map_of_dict_set)
  from assms(1) obtain passing failing m1 m2 m3 m4 where
    cp: "count_passes True items = Inr passing" and cf: "count_passes False items = Inr failing"
    and s1: "py_setitem (dict_get d1 ''metadata'' JNull) ''total_features'' (JInt (int (length items))) = Inr m1"
    and s2: "py_setitem m1 ''passing'' (JInt (int passing)) = Inr m2"
    and s3: "py_setitem m2 ''failing'' (JInt (int failing)) = Inr m3"
    and s4: "py_setitem m3 ''last_updated'' (JStr (now_isoformat rt)) = Inr m4"
    and d': "d' = dict_set ''metadata'' m4 d1"
    unfolding update_metadata_def Let_def d1_def[symmetric] f1
    by (auto simp: bindE_Inr_iff)
  from s1 s2 s3 s4 obtain kvs where
    m4: "m4 = JObj (dict_set ''last_updated'' (JStr (now_isoformat rt))
              (dict_set ''failing'' (JInt (int failing))
              (dict_set ''passing'' (JInt (int passing))
              (dict_set ''total_features'' (JInt (int (length items))) kvs))))"
    by (auto simp: py_setitem_Inr_iff)
  have "map_of d' = (map_of d)(''metadata'' \<mapsto> m4)"
    by (auto simp: d' d1_def map_of_dict_set)
  moreover obtain meta where meta: "m4 = JObj meta"
    "map_of meta ''total_features'' = Some (JInt (int (length items)))"
    "map_of meta ''passing'' = Some (JInt (int passing))"
    "map_of meta ''failing'' = Some (JInt (int failing))"
    "map_of meta ''last_updated'' = Some (JStr (now_isoformat rt))"
    using m4 by (simp add: map_of_dict_set)
  ultimately show ?thesis
    using count_passes_Inr[OF cp] count_passes_Inr[OF cf] by auto
qed

lemma save_feature_list_ok:
  assumes "save_feature_list rt files p d True = (Inr u, files')"
  shows "\<exists>bp txt. with_suffix p ''.json.bak'' = Inr bp \<and> files p = Some txt \<and> bp \<noteq> p \<and>
           files' = files(bp \<mapsto> txt, p \<mapsto> json_dumps rt d)"
  using assms
  by (auto simp: save_feature_list_def shutil_copy_def Let_def
           split: sum.splits option.splits if_splits io_fault.splits prod.splits)

lemma apply_change_ok:
  assumes "apply_change rt files p fid passes kvs index = (ms, Inr b, files')"
  shows "\<exists>d1 data' bp txt. set_passes kvs index passes = Inr d1 \<and> update_metadata rt d1 = Inr data' \<and>
           with_suffix p ''.json.bak'' = Inr bp \<and> files p = Some txt \<and> bp \<noteq> p \<and>
           files' = files(bp \<mapsto> txt, p \<mapsto> json_dumps rt (JObj data'))"
proof -
  from assms obtain data' where d: "bindE (set_passes kvs index passes) (update_metadata rt) = Inr data'"
    by (auto simp: apply_change_def split: sum.splits)
  then obtain d1 where d1: "set_passes kvs index passes = Inr d1" "update_metadata rt d1 = Inr data'"
    by (auto simp: bindE_Inr_iff)
  from assms d have "save_feature_list rt files p (JObj data') True = (Inr (), files')"
    by (auto simp: apply_change_def split: sum.splits prod.splits)
  from save_feature_list_ok[OF this] d1 show ?thesis by blast
qed

lemma not_changed_shown:
  "bindE (py_get feature ''description'' d0) (\<lambda>d. bindE (py_get feature ''category'' c0) (\<lambda>c.
     Inr [FeatureMsg fid, DescriptionMsg d, CategoryMsg c, ChangeMsg a b])) = Inr shown
   \<Longrightarrow> \<not> changed shown"
  by (auto simp: bindE_Inr_iff changed_def)

lemma available_lines_not_updated: "\<not> list_ex is_updated (fst (available_lines xs))"
  by (induction xs) (auto simp: bindE_Inr_iff split: sum.splits prod.splits)

lemma report_not_found_not_changed: "\<not> changed (fst (report_not_found data fid))"
  using available_lines_not_updated
  by (auto simp: report_not_found_def changed_def Let_def
           split: sum.splits prod.splits option.splits)
     (metis fst_conv)+

lemma update_changed_inv:
  assumes run: "update_feature_status rt files p fid passes dry = (ms, Inr b, files')"
      and ch: "changed ms"
  shows "\<exists>kvs index feature ms'. load_feature_list rt files p = Inr (JObj kvs) \<and>
           find_feature (JObj kvs) fid = Inr (Some (index, feature)) \<and> \<not> dry \<and>
           \<not> py_eq_bool (dict_get (case feature of JObj fkv \<Rightarrow> fkv | _ \<Rightarrow> []) ''passes'' (JBool False)) passes \<and>
           apply_change rt files p fid passes kvs index = (ms', Inr b, files')"
proof -
  from run ch obtain data where ld: "load_feature_list rt files p = Inr data"
    by (auto simp: update_feature_status_def changed_def split: sum.splits if_splits)
  from run ch ld report_not_found_not_changed[of data fid]
  obtain index feature where ff: "find_feature data fid = Inr (Some (index, feature))"
    by (auto simp: update_feature_status_def split: sum.splits option.splits prod.splits)
  from run ld ff obtain cur where cur: "py_get feature ''passes'' (JBool False) = Inr cur"
    by (auto simp: update_feature_status_def split: sum.splits)
  from run ch ld ff cur have ne: "\<not> py_eq_bool cur passes"
    by (auto simp: update_feature_status_def changed_def split: if_splits)
  from run ld ff cur ne obtain shown where sh:
    "bindE (py_get feature ''description'' (JStr ''N/A'')) (\<lambda>d.
       bindE (py_get feature ''category'' (JStr ''N/A'')) (\<lambda>c.
       Inr [FeatureMsg fid, DescriptionMsg d, CategoryMsg c, ChangeMsg (py_truthy cur) passes])) = Inr shown"
    by (auto simp: update_feature_status_def split: sum.splits)
  have nsh: "\<not> changed shown" by (rule not_changed_shown[OF sh])
  from run ch ld ff cur ne sh nsh have nd: "\<not> dry"
    by (auto simp: update_feature_status_def changed_def split: if_splits)
  from run ld ff cur ne sh nd obtain kvs where kvs: "data = JObj kvs"
    by (cases data) (auto simp: update_feature_status_def)
  from run ld ff cur ne sh nd kvs obtain ms' where
    "apply_change rt files p fid passes kvs index = (ms', Inr b, files')"
    by (auto simp: update_feature_status_def split: prod.splits)
  moreover from cur have "cur = dict_get (case feature of JObj fkv \<Rightarrow> fkv | _ \<Rightarrow> []) ''passes'' (JBool False)"
    by (auto simp: py_get_Inr_iff)
  ultimately show ?thesis using ld ff nd ne kvs by blast
qed

lemma find_feature_Some:
  assumes "find_feature data fid = Inr (Some (index, feature))"
  shows "\<exists>kvs items fkv. data = JObj kvs \<and> map_of kvs ''features'' = Some (JList items) \<and>
           index < length items \<and> items ! index = feature \<and> feature = JObj fkv \<and>
           map_of fkv ''id'' = Some (JStr fid)"
proof -
  from assms obtain kvs its where kvs: "data = JObj kvs"
    and it: "py_iter (dict_get kvs ''features'' (JList [])) = Inr its"
    and fl: "find_loop fid 0 its = Inr (Some (index, feature))"
    by (auto simp: find_feature_def py_get_Inr_iff split: sum.splits)
  from find_loop_Some[OF fl] obtain fkv where
    ix: "index < length its" "its ! index = feature" "feature = JObj fkv"
        "map_of fkv ''id'' = Some (JStr fid)"
    by auto
  have "\<exists>items. map_of kvs ''features'' = Some (JList items) \<and> its = items"
  proof (cases "dict_get kvs ''features'' (JList [])")
    case (JList xs)
    with it ix show ?thesis by (auto simp: dict_get_def split: option.splits)
  next
    case (JStr s) with it ix show ?thesis by auto
  next
    case (JObj o1) with it ix show ?thesis by auto
  qed (use it in auto)
  with kvs ix show ?thesis by blast
qed

lemma load_io_fault [simp]: "load_feature_list (rt\<lparr>io_fault := f\<rparr>) = load_feature_list rt"
  by (simp add: load_feature_list_def fun_eq_iff split: option.splits)

lemma update_metadata_io_fault [simp]: "update_metadata (rt\<lparr>io_fault := f\<rparr>) = update_metadata rt"
  by (simp add: update_metadata_def fun_eq_iff)

lemma update_reaches_apply:
  assumes "load_feature_list rt files p = Inr (JObj kvs)"
      and "find_feature (JObj kvs) fid = Inr (Some (index, JObj fkv))"
      and "\<not> py_eq_bool (dict_get fkv ''passes'' (JBool False)) passes"
  shows "snd (update_feature_status rt files p fid passes False)
           = snd (apply_change rt files p fid passes kvs index)"
  using assms
  by (simp add: update_feature_status_def py_get_def bindE_def split: prod.splits)

lemma apply_change_fault:
  assumes "set_passes kvs index passes = Inr d1" and "update_metadata rt d1 = Inr data'"
      and "with_suffix p ''.json.bak'' = Inr bp" and "files p = Some old_text" and "bp \<noteq> p"
  shows "snd (apply_change (rt\<lparr>io_fault := OpenFault\<rparr>) files p fid passes kvs index)
           = (Inl OSError, files(bp \<mapsto> old_text))"
    and "snd (apply_change (rt\<lparr>io_fault := WriteFault part\<rparr>) files p fid passes kvs index)
           = (Inl OSError, files(bp \<mapsto> old_text, p \<mapsto> part))"
    and "snd (apply_change (rt\<lparr>io_fault := CopyFault None\<rparr>) files p fid passes kvs index)
           = (Inl OSError, files)"
    and "snd (apply_change (rt\<lparr>io_fault := CopyFault (Some part)\<rparr>) files p fid passes kvs index)
           = (Inl OSError, files(bp \<mapsto> part))"
  using assms
  by (auto simp: apply_change_def bindE_def save_feature_list_def shutil_copy_def)

lemma py_suffix_split:
  assumes "py_suffix nm = sfx" and "sfx \<noteq> []"
  shows "take (length nm - length sfx) nm @ sfx = nm"
proof -
  from assms obtain i where i: "drop i nm = sfx" "i < length nm"
    by (auto simp: py_suffix_def split: option.splits if_splits)
  then have "length nm - length sfx = i" by auto
  with i show ?thesis by (metis append_take_drop_id)
qed

lemma with_suffix_json:
  assumes "py_suffix (path_name p) = ''.json''"
  shows "with_suffix p ''.json.bak'' = Inr (Path (path_parent p) (path_name p @ ''.bak''))"
proof -
  let ?stem = "take (length (path_name p) - length ''.json'') (path_name p)"
  have e: "?stem @ ''.json'' = path_name p"
    using assms by (intro py_suffix_split) auto
  have "?stem @ ''.json.bak'' = (?stem @ ''.json'') @ ''.bak''" by simp
  also have "\<dots> = path_name p @ ''.bak''" by (simp only: e)
  finally have "?stem @ ''.json.bak'' = path_name p @ ''.bak''" .
  moreover have "path_name p \<noteq> []" using assms by (auto simp: py_suffix_def)
  ultimately show ?thesis using assms by (simp add: with_suffix_def)
qed

lemma find_loop_absent:
  assumes "list_all is_obj items" and "\<forall>f\<in>set items. feature_id f \<noteq> JStr fid"
  shows "find_loop fid i items = Inr None"
  using assms
  by (induction items arbitrary: i)
     (auto simp: is_obj_def feature_id_def py_get_def split: json.splits)

lemma available_lines_ok:
  assumes "list_all is_obj items" and "list_all description_ok items"
  shows "available_lines items = (map available_line items, None)"
  using assms
  by (induction items)
     (auto simp: is_obj_def description_ok_def py_get_def bindE_def dict_get_def available_line_def
           split: json.splits option.splits)

lemma shown_ids_append: "shown_ids (xs @ ys) = shown_ids xs @ shown_ids ys"
  by (induction xs rule: shown_ids.induct) auto

lemma shown_ids_available: "list_all is_obj items \<Longrightarrow>
   shown_ids (map available_line items) = map feature_id items"
  by (induction items)
     (auto simp: is_obj_def available_line_def feature_id_def split: json.splits)

text \<open>
  The backup path never coincides with the ledger path, an id carried by some feature of
  a well-typed ledger is found at its first occurrence, and on such a ledger a requested
  change goes through when no I/O step fails.
\<close>

lemma rfind_last:
  "rfind c s = Some i \<Longrightarrow> i < length s \<and> s ! i = c \<and> c \<notin> set (drop (Suc i) s)"
proof (induction s arbitrary: i)
  case Nil then show ?case by simp
next
  case (Cons x xs)
  show ?case
  proof (cases "rfind c xs")
    case None
    then have "c \<notin> set xs"
      by (induction xs) (auto split: option.splits if_splits)
    with Cons.prems None show ?thesis by (auto split: if_splits)
  next
    case (Some j)
    with Cons.prems Cons.IH[OF Some] show ?thesis by auto
  qed
qed

lemma py_suffix_one_dot:
  assumes "py_suffix nm = sfx" and "sfx \<noteq> []"
  shows "CHR ''.'' \<notin> set (tl sfx)"
proof -
  from assms obtain i where i: "rfind (CHR ''.'') nm = Some i" "sfx = drop i nm"
    by (auto simp: py_suffix_def split: option.splits if_splits)
  from rfind_last[OF i(1)] have "CHR ''.'' \<notin> set (drop (Suc i) nm)" by simp
  then show ?thesis by (simp add: i(2) drop_Suc tl_drop)
qed

lemma backup_path_differs:
  assumes "with_suffix p ''.json.bak'' = Inr bp"
  shows "bp \<noteq> p"
proof (cases "py_suffix (path_name p) = []")
  case True
  with assms have "path_name bp = path_name p @ ''.json.bak''"
    by (auto simp: with_suffix_def split: if_splits)
  then show ?thesis by auto
next
  case False
  let ?sfx = "py_suffix (path_name p)"
  let ?stem = "take (length (path_name p) - length ?sfx) (path_name p)"
  from False assms have bp: "path_name bp = ?stem @ ''.json.bak''"
    by (auto simp: with_suffix_def Let_def split: if_splits)
  have nm: "?stem @ ?sfx = path_name p"
    using False by (intro py_suffix_split) auto
  have "?sfx \<noteq> ''.json.bak''"
    using py_suffix_one_dot[OF refl False] by auto
  with bp nm show ?thesis by (metis same_append_eq)
qed

lemma find_loop_present:
  assumes "list_all is_obj items" and "\<exists>f\<in>set items. feature_id f = JStr fid"
  shows "\<exists>k fkv. find_loop fid i items = Inr (Some (i + k, JObj fkv)) \<and> k < length items \<and>
           items ! k = JObj fkv \<and> feature_id (JObj fkv) = JStr fid \<and>
           (\<forall>j<k. feature_id (items ! j) \<noteq> JStr fid)"
  using assms
proof (induction items arbitrary: i)
  case Nil then show ?case by simp
next
  case (Cons f rest)
  from Cons.prems(1) obtain kvs where f: "f = JObj kvs" by (cases f) (auto simp: is_obj_def)
  show ?case
  proof (cases "feature_id f = JStr fid")
    case True
    with f show ?thesis
      by (intro exI[of _ 0] exI[of _ kvs]) (simp add: py_get_def feature_id_def)
  next
    case False
    with Cons.prems have "list_all is_obj rest" "\<exists>f\<in>set rest. feature_id f = JStr fid" by auto
    from Cons.IH[OF this, of "Suc i"] obtain k fkv where
      k: "find_loop fid (Suc i) rest = Inr (Some (Suc i + k, JObj fkv))" "k < length rest"
         "rest ! k = JObj fkv" "feature_id (JObj fkv) = JStr fid"
         "\<forall>j<k. feature_id (rest ! j) \<noteq> JStr fid" by blast
    have "\<forall>j<Suc k. feature_id ((f # rest) ! j) \<noteq> JStr fid"
      using False k(5) by (auto simp: less_Suc_eq_0_disj)
    with k f False show ?thesis
      by (intro exI[of _ "Suc k"] exI[of _ fkv]) (simp add: py_get_def feature_id_def)
  qed
qed

lemma find_feature_present:
  assumes "map_of kvs ''features'' = Some (JList items)"
      and "list_all is_obj items" and "\<exists>f\<in>set items. feature_id f = JStr fid"
  shows "\<exists>k fkv. find_feature (JObj kvs) fid = Inr (Some (k, JObj fkv)) \<and> k < length items \<and>
           items ! k = JObj fkv \<and> feature_id (JObj fkv) = JStr fid \<and>
           (\<forall>j<k. feature_id (items ! j) \<noteq> JStr fid)"
  using find_loop_present[OF assms(2,3), of 0] assms(1)
  by (simp add: find_feature_def py_get_def dict_get_def)

lemma update_succeeds:
  assumes ld: "load_feature_list rt files p = Inr (JObj kvs)"
      and items: "map_of kvs ''features'' = Some (JList items)"
      and obj: "list_all is_obj items"
      and ff: "find_feature (JObj kvs) fid = Inr (Some (index, JObj fkv))"
      and ne: "\<not> py_eq_bool (dict_get fkv ''passes'' (JBool False)) passes"
      and meta: "case map_of kvs ''metadata'' of None \<Rightarrow> True | Some m \<Rightarrow> is_obj m"
      and nm: "path_name p \<noteq> []"
      and nf: "io_fault rt = NoFault"
  shows "\<exists>ms files'. update_feature_status rt files p fid passes False = (ms, Inr True, files') \<and>
           changed ms"
proof -
  from find_feature_Some[OF ff] items have ix: "index < length items" "items ! index = JObj fkv"
    by auto
  let ?f' = "JObj (dict_set ''passes'' (JBool passes) fkv)"
  let ?items' = "items[index := ?f']"
  let ?d1 = "dict_set ''features'' (JList ?items') kvs"
  have sp: "set_passes kvs index passes = Inr ?d1"
    using items ix by (simp add: set_passes_def py_setitem_def bindE_Inr)
  have obj': "list_all is_obj ?items'"
    using obj by (auto simp: list_all_iff is_obj_def dest!: subsetD[OF set_update_subset_insert])
  let ?d2 = "(if map_of ?d1 ''metadata'' = None then dict_set ''metadata'' (JObj []) ?d1 else ?d1)"
  have f2: "dict_get ?d2 ''features'' (JList []) = JList ?items'"
    by (simp add: dict_get_def map_of_dict_set)
  obtain m where m: "dict_get ?d2 ''metadata'' JNull = JObj m"
    using meta by (auto simp: dict_get_def map_of_dict_set is_obj_def split: option.splits json.splits)
  have "\<exists>data'. update_metadata rt ?d1 = Inr data' \<and> (\<exists>m'. map_of data' ''metadata'' = Some (JObj m'))"
    unfolding update_metadata_def Let_def f2 m
    by (simp add: count_passes_total[OF obj'] bindE_Inr py_setitem_def map_of_dict_set)
  then obtain data' m' where um: "update_metadata rt ?d1 = Inr data'"
    and md: "map_of data' ''metadata'' = Some (JObj m')" by blast
  from ld obtain old_text where old: "files p = Some old_text"
    by (auto simp: load_feature_list_def split: option.splits)
  have "\<exists>bp. with_suffix p ''.json.bak'' = Inr bp"
    using nm by (cases "py_suffix (path_name p) = []") (simp_all add: with_suffix_def Let_def)
  then obtain bp where ws: "with_suffix p ''.json.bak'' = Inr bp" by blast
  have bp: "bp \<noteq> p" by (rule backup_path_differs[OF ws])
  have sv: "save_feature_list rt files p (JObj data') True
              = (Inr (), files(bp \<mapsto> old_text, p \<mapsto> json_dumps rt (JObj data')))"
    using ws old bp nf by (simp add: save_feature_list_def shutil_copy_def)
  have ac: "apply_change rt files p fid passes kvs index
              = ([UpdatedMsg fid passes, BackupSavedMsg bp,
                  ProgressMsg (dict_get m' ''passing'' (JInt 0)) (dict_get m' ''total_features'' (JInt 0))],
                 Inr True, files(bp \<mapsto> old_text, p \<mapsto> json_dumps rt (JObj data')))"
    using sp um sv ws md by (simp add: apply_change_def bindE_Inr py_get_def dict_get_def)
  show ?thesis
    using ld ff ne ac
    by (simp add: update_feature_status_def py_get_def bindE_Inr changed_def)
qed

section \<open>Facts about the selector\<close>

lemma sort_rank_eq:
  "is_obj f \<Longrightarrow> priority_hashable f \<Longrightarrow> sort_rank f = Inr (priority_rank f)"
  by (auto simp: is_obj_def priority_hashable_def sort_rank_def priority_rank_def py_get_def
        bindE_def dict_get_def priority_order_def split: json.splits option.splits)

lemma failing_features_eq:
  "list_all is_obj items \<Longrightarrow>
     failing_features items = Inr (filter (\<lambda>f. \<not> feature_passes f) items)"
  by (induction items)
     (auto simp: is_obj_def feature_passes_def py_get_def bindE_def dict_get_def
           split: json.splits option.splits)

lemma sort_keys_eq:
  "list_all is_obj xs \<Longrightarrow> list_all priority_hashable xs \<Longrightarrow>
     sort_keys xs = Inr (map (\<lambda>f. (priority_rank f, f)) xs)"
  by (induction xs) (auto simp: sort_rank_eq bindE_def)

lemma insort_key_decorated:
  "insort_key fst (k x, x) (map (\<lambda>f. (k f, f)) ys) = map (\<lambda>f. (k f, f)) (insort_key k x ys)"
  by (induction ys) auto

lemma sort_key_decorated:
  "sort_key fst (map (\<lambda>f. (k f, f)) xs) = map (\<lambda>f. (k f, f)) (sort_key k xs)"
  by (induction xs) (auto simp: insort_key_decorated)

lemma undecorate: "map snd (sort_key fst (map (\<lambda>f. (k f, f)) xs)) = sort_key k xs"
  by (simp add: sort_key_decorated o_def)

lemma hd_sort_key_first_min:
  fixes k :: "'a \<Rightarrow> nat"
  assumes "xs \<noteq> []"
  shows "\<exists>pre post. xs = pre @ hd (sort_key k xs) # post \<and>
           (\<forall>g\<in>set pre. k (hd (sort_key k xs)) < k g) \<and>
           (\<forall>g\<in>set post. k (hd (sort_key k xs)) \<le> k g)"
proof -
  let ?ys = "sort_key k xs"
  from assms have ne: "?ys \<noteq> []" by (metis length_0_conv length_sort)
  then obtain f rest where ys: "?ys = f # rest" by (cases ?ys) auto
  have srt: "sorted (map k ?ys)" by (rule sorted_sort_key)
  have le: "k f \<le> k g" if "g \<in> set xs" for g
  proof -
    from that have "g \<in> set ?ys" by simp
    with srt ys show ?thesis by auto
  qed
  have "filter (\<lambda>y. k y = k f) xs = filter (\<lambda>y. k y = k f) ?ys"
    by (rule sort_key_stable[symmetric])
  also have "\<dots> = f # filter (\<lambda>y. k y = k f) rest" by (simp add: ys)
  finally obtain us vs where xs: "xs = us @ f # vs" and us: "\<forall>u\<in>set us. k u \<noteq> k f"
    by (auto simp: filter_eq_Cons_iff)
  have "\<forall>g\<in>set us. k f < k g"
    using us le xs by (metis Un_iff le_neq_implies_less set_append)
  moreover have "\<forall>g\<in>set vs. k f \<le> k g" using le xs by auto
  ultimately show ?thesis using xs ys by auto
qed

lemma get_next_features_eq:
  assumes fs: "py_get data ''features'' (JList []) = Inr (JList items)"
      and obj: "list_all is_obj items"
      and hp: "list_all priority_hashable items"
  shows "get_next_features data limit
           = Inr (take limit (sort_key priority_rank (filter (\<lambda>f. \<not> feature_passes f) items)))"
proof -
  let ?fl = "filter (\<lambda>f. \<not> feature_passes f) items"
  have obj': "list_all is_obj ?fl" and hp': "list_all priority_hashable ?fl"
    using obj hp by (auto simp: list_all_iff)
  show ?thesis
    using fs failing_features_eq[OF obj] sort_keys_eq[OF obj' hp']
    by (simp add: get_next_features_def bindE_def undecorate)
qed

lemma count_passes_missing:
  assumes np: "map_of fkv ''passes'' = None"
  shows "count_passes False (pre @ JObj fkv # post) = bindE (count_passes False (pre @ post)) (\<lambda>n. Inr (Suc n))"
    and "count_passes True (pre @ JObj fkv # post) = count_passes True (pre @ post)"
  using np
  by (induction pre)
     (auto simp: py_get_def dict_get_def bindE_def split: sum.splits json.splits)

lemma next_features_contains_failing:
  assumes fs: "py_get data ''features'' (JList []) = Inr (JList items)"
      and obj: "list_all is_obj items"
      and hp: "list_all priority_hashable items"
      and f: "f \<in> set items" "\<not> feature_passes f"
      and lim: "length items \<le> limit"
  shows "\<exists>res. get_next_features data limit = Inr res \<and> f \<in> set res"
proof -
  let ?fl = "filter (\<lambda>f. \<not> feature_passes f) items"
  have "length (sort_key priority_rank ?fl) \<le> limit"
    using lim le_trans[OF length_filter_le[of "\<lambda>f. \<not> feature_passes f" items]] by simp
  then have "take limit (sort_key priority_rank ?fl) = sort_key priority_rank ?fl" by simp
  with get_next_features_eq[OF fs obj hp, of limit] f show ?thesis by simp
qed

lemma bare_load: "load_feature_list example_runtime example_files bare_path = Inr bare_ledger"
  by (simp add: load_feature_list_def example_runtime_def example_files_def bare_path_def example_path_def)

lemma bare_find: "find_feature bare_ledger ''B001'' = Inr (Some (0, JObj [(''id'', JStr ''B001'')]))"
  by (simp add: find_feature_def bare_ledger_def bare_features_def py_get_def dict_get_def)

section \<open>Facts about the validator\<close>

lemma duplicate_ids_append: "duplicate_ids (xs @ ys) = duplicate_ids xs @ duplicate_ids ys"
  by (induction xs rule: duplicate_ids.induct) auto

lemma duplicate_ids_set: "v \<in> set (duplicate_ids es) \<longleftrightarrow> DuplicateIdErr v \<in> set es"
  by (induction es rule: duplicate_ids.induct) auto

lemma duplicate_ids_map_other:
  "(\<And>x. \<forall>v. g x \<noteq> DuplicateIdErr v) \<Longrightarrow> duplicate_ids (map g xs) = []"
proof (induction xs)
  case Nil then show ?case by simp
next
  case (Cons x xs)
  then show ?case by (cases "g x") auto
qed

lemma validate_feature_no_dup:
  assumes "validate_feature kvs i = Inr fe"
  shows "duplicate_ids fe = []"
proof -
  define l where "l = (case map_of kvs ''id'' of Some v \<Rightarrow> IdLabel v | None \<Rightarrow> IndexLabel i)"
  have m1: "duplicate_ids (map (MissingFieldErr l) xs) = []" for xs
    by (rule duplicate_ids_map_other) simp
  have m2: "duplicate_ids (map (\<lambda>(i, step). StepNotStringErr l (i + 1)) ys) = []" for ys :: "(nat \<times> json) list"
    by (rule duplicate_ids_map_other) (simp add: case_prod_beta)
  have p_str: "duplicate_ids (case map_of kvs field of None \<Rightarrow> []
                 | Some v \<Rightarrow> if is_str v then [] else [NotStringErr l field]) = []" for field
    by (simp split: option.splits)
  have p_pri: "duplicate_ids (case map_of kvs ''priority'' of None \<Rightarrow> []
                 | Some v \<Rightarrow> if v \<in> set (map JStr [''critical'', ''high'', ''medium'', ''low'']) then []
                             else [BadPriorityErr l]) = []"
    by (simp split: option.splits)
  have p_steps: "duplicate_ids (case map_of kvs ''steps'' of None \<Rightarrow> []
                 | Some (JList steps) \<Rightarrow>
                     if steps = [] then [StepsEmptyErr l]
                     else map (\<lambda>(i, step). StepNotStringErr l (i + 1))
                            (filter (\<lambda>(i, step). \<not> is_str step) (enumerate 0 steps))
                 | Some _ \<Rightarrow> [StepsNotArrayErr l]) = []"
    by (auto simp: case_prod_beta split: option.splits json.splits intro!: duplicate_ids_map_other)
  have p_pass: "duplicate_ids (case map_of kvs ''passes'' of None \<Rightarrow> []
                 | Some (JBool b) \<Rightarrow> [] | Some _ \<Rightarrow> [PassesNotBoolErr l]) = []"
    by (simp split: option.splits json.splits)
  have p_short: "duplicate_ids e = []"
    if "(case map_of kvs ''description'' of None \<Rightarrow> Inr []
         | Some d \<Rightarrow> bindE (py_len d) (\<lambda>n. Inr (if n < 10 then [DescriptionTooShortErr l] else []))) = Inr e"
    for e using that by (auto simp: bindE_Inr_iff split: option.splits if_splits)
  from assms obtain e where
    e: "(case map_of kvs ''description'' of None \<Rightarrow> Inr []
         | Some d \<Rightarrow> bindE (py_len d) (\<lambda>n. Inr (if n < 10 then [DescriptionTooShortErr l] else []))) = Inr e"
    and fe: "fe = map (MissingFieldErr l) (filter (\<lambda>field. map_of kvs field = None)
                    [''id'', ''category'', ''description'', ''priority'', ''steps'', ''passes''])
              @ (case map_of kvs ''id'' of None \<Rightarrow> []
                 | Some v \<Rightarrow> if is_str v then [] else [NotStringErr l ''id''])
              @ (case map_of kvs ''category'' of None \<Rightarrow> []
                 | Some v \<Rightarrow> if is_str v then [] else [NotStringErr l ''category''])
              @ (case map_of kvs ''description'' of None \<Rightarrow> []
                 | Some v \<Rightarrow> if is_str v then [] else [NotStringErr l ''description''])
              @ (case map_of kvs ''priority'' of None \<Rightarrow> []
                 | Some v \<Rightarrow> if v \<in> set (map JStr [''critical'', ''high'', ''medium'', ''low'']) then []
                             else [BadPriorityErr l])
              @ (case map_of kvs ''steps'' of None \<Rightarrow> []
                 | Some (JList steps) \<Rightarrow>
                     if steps = [] then [StepsEmptyErr l]
                     else map (\<lambda>(i, step). StepNotStringErr l (i + 1))
                            (filter (\<lambda>(i, step). \<not> is_str step) (enumerate 0 steps))
                 | Some _ \<Rightarrow> [StepsNotArrayErr l])
              @ (case map_of kvs ''passes'' of None \<Rightarrow> []
                 | Some (JBool b) \<Rightarrow> [] | Some _ \<Rightarrow> [PassesNotBoolErr l])
              @ e"
    unfolding validate_feature_def Let_def l_def[symmetric] bindE_Inr_iff by blast
  show ?thesis
    unfolding fe duplicate_ids_append m1 p_str p_pri p_steps p_pass p_short[OF e] by simp
qed

lemma check_duplicate_id_scan:
  assumes "check_duplicate_id (feature_id f) (seen, errs) = Inr (seen1, errs1)"
  shows "\<exists>new. duplicate_ids errs1 = duplicate_ids errs @ new \<and>
           (\<forall>rest. dup_scan seen (f # rest) = new @ dup_scan seen1 rest)"
proof (cases "py_truthy (feature_id f)")
  case False
  with assms have "seen1 = seen" "errs1 = errs" by (simp_all add: check_duplicate_id_def)
  with False show ?thesis by simp
next
  case True
  with assms have h: "hashable (feature_id f)"
    by (simp add: check_duplicate_id_def split: if_splits)
  show ?thesis
  proof (cases "list_ex (\<lambda>s. py_key_eq s (feature_id f)) seen")
    case dup: True
    with assms True h have "seen1 = seen" "errs1 = errs @ [DuplicateIdErr (feature_id f)]"
      by (simp_all add: check_duplicate_id_def)
    with True dup show ?thesis by (simp add: duplicate_ids_append)
  next
    case new: False
    with assms True h have "seen1 = feature_id f # seen" "errs1 = errs"
      by (simp_all add: check_duplicate_id_def)
    with True new show ?thesis by simp
  qed
qed

lemma validate_step_dups:
  assumes "validate_step i f (seen, errs, st) = Inr (seen', errs', st')"
  shows "\<exists>new. duplicate_ids errs' = duplicate_ids errs @ new \<and>
           (\<forall>rest. dup_scan seen (f # rest) = new @ dup_scan seen' rest)"
proof -
  from assms obtain kvs where f: "f = JObj kvs"
    by (cases f) (auto simp: validate_step_def bindE_Inr_iff py_get_def)
  then have fid: "py_get f ''id'' JNull = Inr (feature_id f)"
    by (simp add: py_get_def feature_id_def)
  from assms obtain seen1 errs1 fe where
    s1: "check_duplicate_id (feature_id f) (seen, errs) = Inr (seen1, errs1)"
    and fe: "validate_feature kvs i = Inr fe"
    and out: "seen' = seen1" "errs' = errs1 @ fe"
    unfolding validate_step_def fid by (auto simp: bindE_Inr_iff f)
  from check_duplicate_id_scan[OF s1] obtain new where
    "duplicate_ids errs1 = duplicate_ids errs @ new"
    "\<forall>rest. dup_scan seen (f # rest) = new @ dup_scan seen1 rest" by blast
  with out validate_feature_no_dup[OF fe] show ?thesis
    by (auto simp: duplicate_ids_append)
qed

lemma validate_loop_dups:
  "validate_loop i items (seen, errs, st) = Inr (seen', errs', st') \<Longrightarrow>
     duplicate_ids errs' = duplicate_ids errs @ dup_scan seen items"
proof (induction items arbitrary: i seen errs st)
  case Nil then show ?case by simp
next
  case (Cons f rest)
  from Cons.prems obtain seen1 errs1 st1 where
    step: "validate_step i f (seen, errs, st) = Inr (seen1, errs1, st1)"
    and loop: "validate_loop (Suc i) rest (seen1, errs1, st1) = Inr (seen', errs', st')"
    by (auto simp: bindE_Inr_iff)
  from validate_step_dups[OF step] obtain new where
    n: "duplicate_ids errs1 = duplicate_ids errs @ new"
       "dup_scan seen (f # rest) = new @ dup_scan seen1 rest" by blast
  from Cons.IH[OF loop] n show ?case by (simp only: append.assoc)
qed


lemma key_eq_str: "py_key_eq x (JStr s) \<longleftrightarrow> x = JStr s"
  by (cases x) (auto simp: py_key_eq_def num_val_def)

lemma seen_str: "list_ex (\<lambda>x. py_key_eq x (JStr s)) seen \<longleftrightarrow> JStr s \<in> set seen"
  by (auto simp: list_ex_iff key_eq_str)

lemma dup_scan_count:
  assumes "s \<noteq> []"
  shows "count_list (dup_scan seen items) (JStr s)
           + (if JStr s \<in> set seen \<or> filter (\<lambda>f. feature_id f = JStr s) items = [] then 0 else 1)
         = length (filter (\<lambda>f. feature_id f = JStr s) items)"
proof (induction items arbitrary: seen)
  case Nil then show ?case by simp
next
  case (Cons f rest)
  show ?case
  proof (cases "feature_id f = JStr s")
    case True
    then have t: "py_truthy (feature_id f)" using assms by simp
    show ?thesis
    proof (cases "JStr s \<in> set seen")
      case True
      with \<open>feature_id f = JStr s\<close> t Cons.IH[of seen] show ?thesis
        by (simp add: seen_str)
    next
      case False
      with \<open>feature_id f = JStr s\<close> t Cons.IH[of "JStr s # seen"] show ?thesis
        by (simp add: seen_str)
    qed
  next
    case False
    show ?thesis
    proof (cases "py_truthy (feature_id f)")
      case nt: False
      with False Cons.IH[of seen] show ?thesis by simp
    next
      case t: True
      show ?thesis
      proof (cases "list_ex (\<lambda>x. py_key_eq x (feature_id f)) seen")
        case True
        with False t Cons.IH[of seen] show ?thesis by simp
      next
        case nm: False
        with False t Cons.IH[of "feature_id f # seen"] show ?thesis by auto
      qed
    qed
  qed
qed

lemma dup_scan_truthy: "v \<in> set (dup_scan seen items) \<Longrightarrow> py_truthy v"
  by (induction items arbitrary: seen) (auto split: if_splits)

lemma dup_scan_filter:
  "dup_scan seen (filter (\<lambda>f. py_truthy (feature_id f)) items) = dup_scan seen items"
  by (induction items arbitrary: seen) auto

lemma validate_metadata_no_dup:
  assumes "validate_metadata osn meta = Inr es"
  shows "duplicate_ids es = []"
proof -
  have m: "duplicate_ids (map MetaMissingFieldErr xs) = []" for xs
    by (rule duplicate_ids_map_other) simp
  from assms show ?thesis
    unfolding validate_metadata_def Let_def
    by (auto simp: bindE_Inr_iff duplicate_ids_append m split: if_splits)
qed

lemma check_metadata_no_dup:
  assumes "check_metadata osn meta st = Inr es"
  shows "duplicate_ids es = []"
  using assms validate_metadata_no_dup
  by (auto simp: check_metadata_def bindE_Inr_iff duplicate_ids_append)

lemma validate_feature_list_inv:
  assumes run: "validate_feature_list rt osn files p = Inr (valid, errs, st)"
      and src: "files p = Some text_in" "json_loads rt text_in = Some (JObj kvs)"
      and items: "map_of kvs ''features'' = Some (JList items)"
  shows "\<exists>seen errors meta_errors.
           validate_loop 0 items ([], [], empty_stats) = Inr (seen, errors, st) \<and>
           errs = errors @ meta_errors \<and> duplicate_ids meta_errors = [] \<and>
           valid = (errs = [])"
proof -
  have c: "py_contains (JObj kvs) ''features'' = Inr True"
    using items by (simp add: py_contains_def)
  have g: "py_getitem (JObj kvs) ''features'' = Inr (JList items)"
    using items by (simp add: py_getitem_def)
  have cm: "py_contains (JObj kvs) ''metadata'' = Inr (map_of kvs ''metadata'' \<noteq> None)"
    by (simp add: py_contains_def)
  from run have
    "bindE (validate_loop 0 items ([], [], empty_stats)) (\<lambda>(seen_ids, errors, stats).
       bindE (if map_of kvs ''metadata'' \<noteq> None
              then bindE (py_getitem (JObj kvs) ''metadata'') (\<lambda>meta. check_metadata osn meta stats)
              else Inr []) (\<lambda>meta_errors.
       Inr (errors @ meta_errors = [], errors @ meta_errors, stats))) = Inr (valid, errs, st)"
    by (simp add: validate_feature_list_def src c g cm bindE_Inr)
  then have
    "\<exists>seen errors meta_errors.
       validate_loop 0 items ([], [], empty_stats) = Inr (seen, errors, st) \<and>
       (if map_of kvs ''metadata'' \<noteq> None
        then bindE (py_getitem (JObj kvs) ''metadata'') (\<lambda>meta. check_metadata osn meta st)
        else Inr []) = Inr meta_errors \<and>
       errs = errors @ meta_errors \<and> valid = (errors @ meta_errors = [])"
    unfolding bindE_Inr_iff[of "validate_loop 0 items ([], [], empty_stats)"]
    by (auto simp: bindE_Inr_iff)
  then obtain seen errors meta_errors where
    loop: "validate_loop 0 items ([], [], empty_stats) = Inr (seen, errors, st)"
    and me: "(if map_of kvs ''metadata'' \<noteq> None
              then bindE (py_getitem (JObj kvs) ''metadata'') (\<lambda>meta. check_metadata osn meta st)
              else Inr []) = Inr meta_errors"
    and out: "errs = errors @ meta_errors" "valid = (errs = [])"
    by blast
  from me have "duplicate_ids meta_errors = []"
    by (auto simp: bindE_Inr_iff check_metadata_no_dup split: if_splits)
  with loop out show ?thesis by blast
qed

lemma validate_duplicates:
  assumes run: "validate_feature_list rt osn files p = Inr (valid, errs, st)"
      and src: "files p = Some text_in" "json_loads rt text_in = Some (JObj kvs)"
      and items: "map_of kvs ''features'' = Some (JList items)"
  shows "duplicate_ids errs = dup_scan [] items" and "valid = (errs = [])"
proof -
  from validate_feature_list_inv[OF run src items] obtain seen errors meta_errors where
    h: "validate_loop 0 items ([], [], empty_stats) = Inr (seen, errors, st)"
       "errs = errors @ meta_errors" "duplicate_ids meta_errors = []" "valid = (errs = [])"
    by blast
  from validate_loop_dups[OF h(1)] h(2,3) show "duplicate_ids errs = dup_scan [] items"
    by (simp add: duplicate_ids_append)
  from h(4) show "valid = (errs = [])" .
qed

lemma validate_feature_total:
  assumes "case map_of kvs ''description'' of None \<Rightarrow> True | Some d \<Rightarrow> sized d"
  shows "\<exists>fe. validate_feature kvs i = Inr fe"
proof -
  from assms have "\<exists>e. (case map_of kvs ''description'' of None \<Rightarrow> Inr []
         | Some d \<Rightarrow> bindE (py_len d) (\<lambda>n. Inr (if n < 10 then [DescriptionTooShortErr l] else []))) = Inr e" for l
    by (auto simp: sized_def bindE_def split: option.splits json.splits)
  then show ?thesis
    unfolding validate_feature_def Let_def bindE_Inr_iff by blast
qed

lemma collect_stats_total:
  assumes "hashable (dict_get kvs ''category'' (JStr ''uncategorized''))"
      and "hashable (dict_get kvs ''priority'' (JStr ''unknown''))"
  shows "\<exists>st'. collect_stats (JObj kvs) st = Inr st'"
  using assms by (simp add: collect_stats_def py_get_def bump_count_def bindE_Inr Let_def)

lemma check_duplicate_id_total:
  assumes "if py_truthy fid then hashable fid else True"
  shows "\<exists>r. check_duplicate_id fid st = Inr r"
  using assms by (cases st) (auto simp: check_duplicate_id_def)

lemma validate_step_total:
  assumes "feature_checkable f"
  shows "\<exists>r. validate_step i f st = Inr r"
proof -
  from assms obtain kvs where f: "f = JObj kvs"
    by (cases f) (auto simp: feature_checkable_def)
  obtain seen errs stats where st: "st = (seen, errs, stats)" by (cases st) auto
  from assms f obtain r1 fe st' where
    "check_duplicate_id (dict_get kvs ''id'' JNull) (seen, errs) = Inr r1"
    "validate_feature kvs i = Inr fe" "collect_stats (JObj kvs) stats = Inr st'"
    using check_duplicate_id_total[of "dict_get kvs ''id'' JNull" "(seen, errs)"]
      validate_feature_total[of kvs i] collect_stats_total[of kvs stats]
    by (auto simp: feature_checkable_def)
  then show ?thesis
    by (cases r1) (simp add: validate_step_def f st py_get_def bindE_Inr)
qed

lemma validate_loop_total:
  "list_all feature_checkable items \<Longrightarrow> \<exists>r. validate_loop i items st = Inr r"
proof (induction items arbitrary: i st)
  case Nil show ?case by (rule exI[of _ st]) simp
next
  case (Cons f rest)
  from Cons.prems validate_step_total[of f i st] obtain r where "validate_step i f st = Inr r" by auto
  with Cons.IH[of "Suc i" r] Cons.prems show ?case by (simp add: bindE_Inr)
qed

lemma check_metadata_total:
  assumes "metadata_checkable kvs" and "map_of kvs ''metadata'' = Some meta"
  shows "\<exists>es. check_metadata osn meta st = Inr es"
proof -
  from assms obtain m where m: "meta = JObj m"
    by (cases meta) (auto simp: metadata_checkable_def)
  have "\<exists>es. validate_metadata osn (JObj m) = Inr es"
  proof (cases "map_of m ''total_features'' \<noteq> None \<and> map_of m ''passing'' \<noteq> None \<and> map_of m ''failing'' \<noteq> None")
    case True
    then obtain t a b where tab: "map_of m ''total_features'' = Some t" "map_of m ''passing'' = Some a"
      "map_of m ''failing'' = Some b" by auto
    with assms m obtain x y z where "as_int t = Some z" "as_int a = Some x" "as_int b = Some y"
      by (auto simp: metadata_checkable_def)
    with tab show ?thesis
      by (simp add: validate_metadata_def py_contains_def py_getitem_def bindE_Inr py_sum_ne_def)
  next
    case False
    then show ?thesis
      by (auto simp: validate_metadata_def py_contains_def bindE_Inr)
  qed
  then show ?thesis
    by (auto simp: check_metadata_def m py_get_def bindE_Inr)
qed

lemma validate_feature_list_total:
  assumes src: "files p = Some text_in" "json_loads rt text_in = Some (JObj kvs)"
      and items: "map_of kvs ''features'' = Some (JList items)"
      and ok: "list_all feature_checkable items" "metadata_checkable kvs"
  shows "\<exists>valid errs st. validate_feature_list rt osn files p = Inr (valid, errs, st)"
proof -
  have c: "py_contains (JObj kvs) ''features'' = Inr True"
    using items by (simp add: py_contains_def)
  have g: "py_getitem (JObj kvs) ''features'' = Inr (JList items)"
    using items by (simp add: py_getitem_def)
  have cm: "py_contains (JObj kvs) ''metadata'' = Inr (map_of kvs ''metadata'' \<noteq> None)"
    by (simp add: py_contains_def)
  from validate_loop_total[OF ok(1)] obtain seen errors st where
    loop: "validate_loop 0 items ([], [], empty_stats) = Inr (seen, errors, st)"
    by (metis prod_cases3)
  have "\<exists>me. (if map_of kvs ''metadata'' \<noteq> None
              then bindE (py_getitem (JObj kvs) ''metadata'') (\<lambda>meta. check_metadata osn meta st)
              else Inr []) = Inr me"
    using check_metadata_total[OF ok(2)] by (auto simp: py_getitem_def bindE_Inr)
  then show ?thesis
    by (auto simp: validate_feature_list_def src c g cm loop bindE_Inr)
qed

lemma duplicate_ids_count: "count_list (duplicate_ids es) v = count_list es (DuplicateIdErr v)"
  by (induction es rule: duplicate_ids.induct) auto

lemma bindE_not_error:
  "m \<noteq> Inl e \<Longrightarrow> (\<And>x. f x \<noteq> Inl e) \<Longrightarrow> bindE m f \<noteq> Inl e"
  by (cases m) (auto simp: bindE_def)

lemma py_truediv_zero_dividend: "b \<noteq> 0 \<Longrightarrow> py_truediv 0 b = Inr (Fin 0)"
  by (simp add: py_truediv_def round_double_def)

lemma py_truediv_nonzero: "b \<noteq> 0 \<Longrightarrow> py_truediv a b \<noteq> Inl ZeroDivisionError"
  by (simp add: py_truediv_def split: pyfloat.splits)

lemma py_mul_int_float_no_zerodiv: "py_mul_int_float n x \<noteq> Inl ZeroDivisionError"
  by (simp add: py_mul_int_float_def py_float_of_int_def bindE_def split: pyfloat.splits)

lemma py_int_no_zerodiv: "py_int x \<noteq> Inl ZeroDivisionError"
  by (simp add: py_int_def split: pyfloat.splits)

lemma py_repeat_no_zerodiv: "py_repeat n \<noteq> Inl ZeroDivisionError"
  by (simp add: py_repeat_def)

lemma print_report_percentages_no_zerodiv:
  "print_report_percentages st \<noteq> Inl ZeroDivisionError"
proof -
  have "max (int (stats_total st)) 1 \<noteq> 0" by (simp add: max_def)
  then show ?thesis
    unfolding print_report_percentages_def
    by (intro bindE_not_error py_truediv_nonzero) simp_all
qed

lemma print_progress_bar_no_zerodiv: "print_progress_bar a b w \<noteq> Inl ZeroDivisionError"
proof (cases "b = 0")
  case True
  then show ?thesis by (simp add: print_progress_bar_def)
next
  case False
  then show ?thesis
    unfolding print_progress_bar_def
    by (simp del: bindE_def)
       (intro bindE_not_error py_truediv_nonzero py_mul_int_float_no_zerodiv py_int_no_zerodiv
          py_repeat_no_zerodiv, simp_all)
qed

lemma validate_feature_missing_id:
  assumes "validate_feature kvs i = Inr fe" and "map_of kvs ''id'' = None"
  shows "MissingFieldErr (IndexLabel i) ''id'' \<in> set fe"
  using assms unfolding validate_feature_def Let_def bindE_Inr_iff by auto

lemma validate_step_errors:
  assumes "validate_step i f (seen, errs, st) = Inr (seen', errs', st')"
  shows "\<exists>kvs fe. f = JObj kvs \<and> validate_feature kvs i = Inr fe \<and>
           set errs \<subseteq> set errs' \<and> set fe \<subseteq> set errs'"
proof -
  from assms obtain kvs where f: "f = JObj kvs"
    by (cases f) (auto simp: validate_step_def bindE_Inr_iff py_get_def)
  then have fid: "py_get f ''id'' JNull = Inr (feature_id f)"
    by (simp add: py_get_def feature_id_def)
  from assms obtain seen1 errs1 fe where
    s1: "check_duplicate_id (feature_id f) (seen, errs) = Inr (seen1, errs1)"
    and fe: "validate_feature kvs i = Inr fe"
    and out: "errs' = errs1 @ fe"
    unfolding validate_step_def fid by (auto simp: bindE_Inr_iff f)
  from s1 have "set errs \<subseteq> set errs1"
    by (auto simp: check_duplicate_id_def split: if_splits)
  with f fe out show ?thesis by auto
qed

lemma validate_loop_errors:
  "validate_loop i items (seen, errs, st) = Inr (seen', errs', st') \<Longrightarrow>
     set errs \<subseteq> set errs' \<and>
     (\<forall>k<length items. \<exists>kvs fe. items ! k = JObj kvs \<and> validate_feature kvs (i + k) = Inr fe \<and>
        set fe \<subseteq> set errs')"
proof (induction items arbitrary: i seen errs st)
  case Nil then show ?case by simp
next
  case (Cons f rest)
  from Cons.prems obtain seen1 errs1 st1 where
    step: "validate_step i f (seen, errs, st) = Inr (seen1, errs1, st1)"
    and loop: "validate_loop (Suc i) rest (seen1, errs1, st1) = Inr (seen', errs', st')"
    by (auto simp: bindE_Inr_iff)
  from validate_step_errors[OF step] obtain kvs fe where
    h: "f = JObj kvs" "validate_feature kvs i = Inr fe" "set errs \<subseteq> set errs1" "set fe \<subseteq> set errs1"
    by blast
  from Cons.IH[OF loop] have
    ih: "set errs1 \<subseteq> set errs'"
        "\<forall>k<length rest. \<exists>kvs fe. rest ! k = JObj kvs \<and> validate_feature kvs (Suc i + k) = Inr fe \<and>
            set fe \<subseteq> set errs'" by auto
  show ?case
  proof (intro conjI allI impI)
    show "set errs \<subseteq> set errs'" using h(3) ih(1) by auto
    fix k assume k: "k < length (f # rest)"
    show "\<exists>kvs fe. (f # rest) ! k = JObj kvs \<and> validate_feature kvs (i + k) = Inr fe \<and> set fe \<subseteq> set errs'"
    proof (cases k)
      case 0
      with h ih(1) show ?thesis by auto
    next
      case (Suc j)
      with k ih(2) show ?thesis by auto
    qed
  qed
qed

lemma validate_missing_id_reported:
  assumes run: "validate_feature_list rt osn files p = Inr (valid, errs, st)"
      and src: "files p = Some text_in" "json_loads rt text_in = Some (JObj kvs)"
      and items: "map_of kvs ''features'' = Some (JList items)"
      and k: "k < length items" "items ! k = JObj fkv" "map_of fkv ''id'' = None"
  shows "MissingFieldErr (IndexLabel k) ''id'' \<in> set errs"
proof -
  from validate_feature_list_inv[OF run src items] obtain seen errors meta_errors where
    h: "validate_loop 0 items ([], [], empty_stats) = Inr (seen, errors, st)"
       "errs = errors @ meta_errors" by blast
  from validate_loop_errors[OF h(1)] k(1,2) obtain fe where
    "validate_feature fkv k = Inr fe" "set fe \<subseteq> set errors" by fastforce
  with validate_feature_missing_id[OF _ k(3)] h(2) show ?thesis by auto
qed

lemma collect_stats_missing_passes:
  assumes "collect_stats (JObj fkv) st = Inr st'" and "map_of fkv ''passes'' = None"
  shows "stats_failing st' = stats_failing st + 1 \<and> stats_passing st' = stats_passing st \<and>
         stats_total st' = stats_total st + 1"
  using assms
  by (auto simp: collect_stats_def py_get_def dict_get_def bindE_Inr bindE_Inr_iff Let_def)

lemmas validator_defs =
  validate_feature_list_def example_runtime_def example_files_def example_path_def bare_path_def
  twin_path_def triple_path_def nameless_path_def empty_path_def
  twin_features_def triple_features_def nameless_features_def complete_feature_def
  py_contains_def py_getitem_def py_get_def dict_get_def bindE_def
  validate_step_def check_duplicate_id_def collect_stats_def validate_feature_def
  hashable_def py_key_eq_def num_val_def bump_count_def is_str_def empty_stats_def Let_def

lemma twin_report:
  "validate_feature_list example_runtime example_sum_ne example_files twin_path
     = Inr (False, [DuplicateIdErr (JStr ''F001'')], twin_stats)"
  by (simp add: validator_defs twin_stats_def)

lemma empty_report:
  "validate_feature_list example_runtime example_sum_ne example_files empty_path
     = Inr (True, [], empty_stats)"
  by (simp add: validator_defs)

lemma nameless_report:
  "validate_feature_list example_runtime example_sum_ne example_files nameless_path
     = Inr (False, nameless_errors, nameless_stats)"
  by (simp add: validator_defs nameless_errors_def nameless_stats_def)

lemma bare_collect:
  "collect_stats (JObj [(''id'', JStr ''B001'')]) empty_stats = Inr bare_stats"
  by (simp add: collect_stats_def py_get_def dict_get_def bindE_def bump_count_def hashable_def
        empty_stats_def bare_stats_def Let_def)

lemma update_metadata_total:
  assumes items: "map_of d ''features'' = Some (JList items)"
      and obj: "list_all is_obj items"
      and meta: "case map_of d ''metadata'' of None \<Rightarrow> True | Some m \<Rightarrow> is_obj m"
  shows "\<exists>d'. update_metadata rt d = Inr d'"
proof -
  let ?d2 = "(if map_of d ''metadata'' = None then dict_set ''metadata'' (JObj []) d else d)"
  have f2: "dict_get ?d2 ''features'' (JList []) = JList items"
    using items by (simp add: dict_get_def map_of_dict_set)
  obtain m where m: "dict_get ?d2 ''metadata'' JNull = JObj m"
    using meta by (auto simp: dict_get_def map_of_dict_set is_obj_def split: option.splits json.splits)
  show ?thesis
    unfolding update_metadata_def Let_def f2 m
    by (simp add: count_passes_total[OF obj] bindE_Inr py_setitem_def)
qed

lemma update_metadata_missing_passes:
  assumes np: "map_of fkv ''passes'' = None"
      and u: "update_metadata rt d = Inr d'" and u0: "update_metadata rt d0 = Inr d0'"
      and f: "map_of d ''features'' = Some (JList (pre @ JObj fkv # post))"
      and f0: "map_of d0 ''features'' = Some (JList (pre @ post))"
  shows "\<exists>meta meta0 p f t.
           map_of d' ''metadata'' = Some (JObj meta) \<and> map_of d0' ''metadata'' = Some (JObj meta0) \<and>
           map_of meta0 ''passing'' = Some (JInt p) \<and> map_of meta ''passing'' = Some (JInt p) \<and>
           map_of meta0 ''failing'' = Some (JInt f) \<and> map_of meta ''failing'' = Some (JInt (f + 1)) \<and>
           map_of meta0 ''total_features'' = Some (JInt t) \<and>
           map_of meta ''total_features'' = Some (JInt (t + 1))"
proof -
  have nf: "\<not> feature_passes (JObj fkv)" using np by (simp add: feature_passes_def dict_get_def)
  from update_metadata_Inr[OF u f] obtain meta where
    m: "map_of d' = (map_of d)(''metadata'' \<mapsto> JObj meta)"
       "map_of meta ''total_features'' = Some (JInt (int (length (pre @ JObj fkv # post))))"
       "map_of meta ''passing'' = Some (JInt (int (length (filter (\<lambda>f. feature_passes f = True) (pre @ JObj fkv # post)))))"
       "map_of meta ''failing'' = Some (JInt (int (length (filter (\<lambda>f. feature_passes f = False) (pre @ JObj fkv # post)))))"
    by blast
  from update_metadata_Inr[OF u0 f0] obtain meta0 where
    m0: "map_of d0' = (map_of d0)(''metadata'' \<mapsto> JObj meta0)"
        "map_of meta0 ''total_features'' = Some (JInt (int (length (pre @ post))))"
        "map_of meta0 ''passing'' = Some (JInt (int (length (filter (\<lambda>f. feature_passes f = True) (pre @ post)))))"
        "map_of meta0 ''failing'' = Some (JInt (int (length (filter (\<lambda>f. feature_passes f = False) (pre @ post)))))"
    by blast
  show ?thesis
    using m m0 nf
    by (intro exI[of _ meta] exI[of _ meta0]
          exI[of _ "int (length (filter (\<lambda>f. feature_passes f = True) (pre @ post)))"]
          exI[of _ "int (length (filter (\<lambda>f. feature_passes f = False) (pre @ post)))"]
          exI[of _ "int (length (pre @ post))"]) simp
qed

lemma collect_stats_counts:
  assumes "collect_stats f st = Inr st'"
  shows "stats_passing st' = stats_passing st + (if feature_passes f then 1 else 0) \<and>
         stats_failing st' = stats_failing st + (if feature_passes f then 0 else 1) \<and>
         stats_total st' = stats_total st + 1"
proof -
  from assms obtain kvs where f: "f = JObj kvs"
    by (cases f) (auto simp: collect_stats_def py_get_def bindE_def)
  from assms show ?thesis
    unfolding f
    by (auto simp: collect_stats_def py_get_def bindE_Inr bindE_Inr_iff Let_def feature_passes_def
             split: if_splits)
qed

lemma validate_step_stats:
  assumes "validate_step i f (seen, errs, st) = Inr (seen', errs', st')"
  shows "collect_stats f st = Inr st'"
proof -
  from assms obtain kvs where f: "f = JObj kvs"
    by (cases f) (auto simp: validate_step_def bindE_Inr_iff py_get_def)
  then have fid: "py_get f ''id'' JNull = Inr (feature_id f)"
    by (simp add: py_get_def feature_id_def)
  from assms show ?thesis
    unfolding validate_step_def fid by (auto simp: bindE_Inr_iff f)
qed

lemma validate_loop_stats:
  "validate_loop i items (seen, errs, st) = Inr (seen', errs', st') \<Longrightarrow>
     stats_passing st' = stats_passing st + length (filter (\<lambda>f. feature_passes f) items) \<and>
     stats_failing st' = stats_failing st + length (filter (\<lambda>f. \<not> feature_passes f) items) \<and>
     stats_total st' = stats_total st + length items"
proof (induction items arbitrary: i seen errs st)
  case Nil then show ?case by simp
next
  case (Cons f rest)
  from Cons.prems obtain seen1 errs1 st1 where
    step: "validate_step i f (seen, errs, st) = Inr (seen1, errs1, st1)"
    and loop: "validate_loop (Suc i) rest (seen1, errs1, st1) = Inr (seen', errs', st')"
    by (auto simp: bindE_Inr_iff)
  from collect_stats_counts[OF validate_step_stats[OF step]] Cons.IH[OF loop]
  show ?case by auto
qed

lemma validate_stats_counts:
  assumes run: "validate_feature_list rt osn files p = Inr (valid, errs, st)"
      and src: "files p = Some text_in" "json_loads rt text_in = Some (JObj kvs)"
      and items: "map_of kvs ''features'' = Some (JList items)"
  shows "stats_passing st = length (filter (\<lambda>f. feature_passes f) items)"
    and "stats_failing st = length (filter (\<lambda>f. \<not> feature_passes f) items)"
    and "stats_total st = length items"
proof -
  from validate_feature_list_inv[OF run src items] obtain seen errors where
    "validate_loop 0 items ([], [], empty_stats) = Inr (seen, errors, st)" by blast
  from validate_loop_stats[OF this]
  show "stats_passing st = length (filter (\<lambda>f. feature_passes f) items)"
    and "stats_failing st = length (filter (\<lambda>f. \<not> feature_passes f) items)"
    and "stats_total st = length items"
    by (simp_all add: empty_stats_def)
qed

lemma bare_report:
  "validate_feature_list example_runtime example_sum_ne example_files bare_path
     = Inr (False, bare_errors, bare_stats)"
  by (simp add: validator_defs bare_ledger_def bare_features_def bare_errors_def bare_stats_def)

lemma bare_update: "update_metadata example_runtime [(''features'', JList bare_features)] = Inr bare_updated"
  by (simp add: update_metadata_def bare_features_def bare_updated_def example_runtime_def
        py_get_def dict_get_def bindE_def py_setitem_def Let_def)

lemma empty_update: "update_metadata example_runtime [(''features'', JList [])] = Inr empty_updated"
  by (simp add: update_metadata_def empty_updated_def example_runtime_def
        py_get_def dict_get_def bindE_def py_setitem_def Let_def)

section \<open>Properties of the status update\<close>

lemma update_noop:
  assumes "load_feature_list rt files p = Inr data"
      and "find_feature data fid = Inr (Some (index, JObj fkv))"
      and "py_eq_bool (dict_get fkv ''passes'' (JBool False)) passes"
  shows "update_feature_status rt files p fid passes dry = ([AlreadyMarkedMsg fid passes], Inr True, files)"
  using assms by (simp add: update_feature_status_def py_get_def)

lemma example_load: "load_feature_list example_runtime example_files example_path = Inr example_ledger"
  by (simp add: load_feature_list_def example_runtime_def example_files_def)

lemma example_find_F001:
  "find_feature example_ledger ''F001''
     = Inr (Some (0, JObj [(''id'', JStr ''F001''), (''priority'', JStr ''high''), (''passes'', JBool False)]))"
  by (simp add: find_feature_def example_ledger_def example_features_def py_get_def dict_get_def)

lemma example_run:
  "update_feature_status example_runtime example_files example_path ''F002'' True False
     = (example_messages, Inr True, example_files_after)"
  by (simp add: update_feature_status_def load_feature_list_def example_runtime_def example_files_def
      example_path_def example_ledger_def example_features_def find_feature_def py_get_def dict_get_def
      bindE_def apply_change_def set_passes_def py_setitem_def update_metadata_def
      save_feature_list_def with_suffix_def py_suffix_def shutil_copy_def Let_def
      example_messages_def example_files_after_def)

lemma example_changed: "changed example_messages"
  by (simp add: changed_def example_messages_def)

lemma example_runtime_no_fault: "example_runtime\<lparr>io_fault := NoFault\<rparr> = example_runtime"
  by (simp add: example_runtime_def)

text \<open>
  C2. Whenever a run of the update reports success and a change, the document it wrote
  to the ledger file carries recomputed metadata whose \<open>total_features\<close> is the length of
  the feature list, whose \<open>passing\<close> counts the features with a true \<open>passes\<close> and whose
  \<open>failing\<close> counts the rest, so that \<open>passing + failing = total_features = len(features)\<close>.
\<close>

theorem mutate_metadata_counts:
  assumes run: "update_feature_status rt files p fid passes dry = (ms, Inr True, files')"
      and ch: "changed ms"
  shows "\<exists>data' meta items.
           files' p = Some (json_dumps rt (JObj data')) \<and>
           map_of data' ''features'' = Some (JList items) \<and>
           map_of data' ''metadata'' = Some (JObj meta) \<and>
           map_of meta ''total_features'' = Some (JInt (int (length items))) \<and>
           map_of meta ''passing'' = Some (JInt (int (length (filter (\<lambda>f. feature_passes f) items)))) \<and>
           map_of meta ''failing'' = Some (JInt (int (length (filter (\<lambda>f. \<not> feature_passes f) items)))) \<and>
           length (filter (\<lambda>f. feature_passes f) items) + length (filter (\<lambda>f. \<not> feature_passes f) items)
             = length items"
proof -
  from update_changed_inv[OF run ch] obtain kvs index feature ms' where
    ac: "apply_change rt files p fid passes kvs index = (ms', Inr True, files')"
    by blast
  from apply_change_ok[OF ac] obtain d1 data' bp old_text where
    sp: "set_passes kvs index passes = Inr d1" and um: "update_metadata rt d1 = Inr data'"
    and fs: "files' = files(bp \<mapsto> old_text, p \<mapsto> json_dumps rt (JObj data'))"
    by blast
  from set_passes_Inr[OF sp] obtain items where it: "map_of d1 ''features'' = Some (JList items)"
    by (auto simp: map_of_dict_set)
  from update_metadata_Inr[OF um it] obtain meta where
    m: "map_of data' = (map_of d1)(''metadata'' \<mapsto> JObj meta)"
       "map_of meta ''total_features'' = Some (JInt (int (length items)))"
       "map_of meta ''passing'' = Some (JInt (int (length (filter (\<lambda>f. feature_passes f = True) items))))"
       "map_of meta ''failing'' = Some (JInt (int (length (filter (\<lambda>f. feature_passes f = False) items))))"
    by blast
  have "files' p = Some (json_dumps rt (JObj data'))" by (simp add: fs)
  moreover have "map_of data' ''features'' = Some (JList items)" using m(1) it by simp
  moreover have "map_of data' ''metadata'' = Some (JObj meta)" using m(1) by simp
  ultimately show ?thesis using m(2-4) sum_length_filter_compl[of "\<lambda>f. feature_passes f" items]
    by auto
qed

theorem mutate_metadata_counts_witness:
  "update_feature_status example_runtime example_files example_path ''F002'' True False
     = (example_messages, Inr True, example_files_after) \<and> changed example_messages \<and>
   (\<exists>data' meta items.
      example_files_after example_path = Some (json_dumps example_runtime (JObj data')) \<and>
      map_of data' ''features'' = Some (JList items) \<and>
      map_of data' ''metadata'' = Some (JObj meta) \<and>
      map_of meta ''total_features'' = Some (JInt (int (length items))) \<and>
      map_of meta ''passing'' = Some (JInt (int (length (filter (\<lambda>f. feature_passes f) items)))) \<and>
      map_of meta ''failing'' = Some (JInt (int (length (filter (\<lambda>f. \<not> feature_passes f) items)))) \<and>
      length (filter (\<lambda>f. feature_passes f) items) + length (filter (\<lambda>f. \<not> feature_passes f) items)
        = length items)"
  using mutate_metadata_counts[OF example_run example_changed] example_run example_changed
  by blast

text \<open>
  C3. When the feature found for the id already has the requested status (its
  \<^verbatim>\<open>feature.get('passes', False)\<close> equals the new value), the update succeeds without a
  change: it prints only the "already marked" line, returns success, and leaves the
  whole file system as it was, so neither the ledger (its \<open>last_updated\<close> included) nor
  a backup is written. This holds with and without \<open>--dry-run\<close>.
\<close>

theorem mutate_same_status_noop:
  assumes "load_feature_list rt files p = Inr data"
      and "find_feature data fid = Inr (Some (index, JObj fkv))"
      and "py_eq_bool (dict_get fkv ''passes'' (JBool False)) passes"
  shows "update_feature_status rt files p fid passes dry = ([AlreadyMarkedMsg fid passes], Inr True, files)
         \<and> \<not> changed [AlreadyMarkedMsg fid passes]"
  using update_noop[OF assms] by (simp add: changed_def)

theorem mutate_same_status_noop_witness:
  "load_feature_list example_runtime example_files example_path = Inr example_ledger \<and>
   find_feature example_ledger ''F001''
     = Inr (Some (0, JObj [(''id'', JStr ''F001''), (''priority'', JStr ''high''), (''passes'', JBool False)])) \<and>
   py_eq_bool (dict_get [(''id'', JStr ''F001''), (''priority'', JStr ''high''), (''passes'', JBool False)]
                 ''passes'' (JBool False)) False \<and>
   update_feature_status example_runtime example_files example_path ''F001'' False False
     = ([AlreadyMarkedMsg ''F001'' False], Inr True, example_files) \<and>
   \<not> changed [AlreadyMarkedMsg ''F001'' False]"
proof -
  have h: "py_eq_bool (dict_get [(''id'', JStr ''F001''), (''priority'', JStr ''high''), (''passes'', JBool False)]
                 ''passes'' (JBool False)) False"
    by (simp add: dict_get_def)
  from mutate_same_status_noop[OF example_load example_find_F001 h, of False] example_load example_find_F001 h
  show ?thesis by blast
qed

text \<open>
  C5. Take a run that, with no I/O failure, succeeds and reports a change. Then the
  backup path exists, differs from the ledger path, and after the run holds exactly the
  text the ledger file had before. Had the same run failed when the ledger is opened for
  writing (after the backup copy, before the overwrite), it would raise, the ledger file
  would still hold its old text and the backup would hold that text too. Had it failed
  while the new document is being written, the backup would still hold the old text. Had
  it failed during the backup copy, the ledger file would be untouched.
\<close>

theorem backup_written_before_overwrite:
  assumes run: "update_feature_status (rt\<lparr>io_fault := NoFault\<rparr>) files p fid passes dry = (ms, Inr True, files')"
      and ch: "changed ms"
  shows "\<exists>bp old_text. with_suffix p ''.json.bak'' = Inr bp \<and> bp \<noteq> p \<and> files p = Some old_text \<and>
           files' bp = Some old_text \<and>
           (let (r1, files1) = snd (update_feature_status (rt\<lparr>io_fault := OpenFault\<rparr>) files p fid passes dry)
            in r1 = Inl OSError \<and> files1 p = Some old_text \<and> files1 bp = Some old_text) \<and>
           (\<forall>part. let (r2, files2) = snd (update_feature_status (rt\<lparr>io_fault := WriteFault part\<rparr>) files p fid passes dry)
            in r2 = Inl OSError \<and> files2 bp = Some old_text) \<and>
           (\<forall>left. let (r3, files3) = snd (update_feature_status (rt\<lparr>io_fault := CopyFault left\<rparr>) files p fid passes dry)
            in r3 = Inl OSError \<and> files3 p = Some old_text)"
proof -
  let ?rt = "rt\<lparr>io_fault := NoFault\<rparr>"
  from update_changed_inv[OF run ch] obtain kvs index feature ms' where
    ld: "load_feature_list rt files p = Inr (JObj kvs)"
    and ff: "find_feature (JObj kvs) fid = Inr (Some (index, feature))"
    and nd: "\<not> dry"
    and ne: "\<not> py_eq_bool (dict_get (case feature of JObj fkv \<Rightarrow> fkv | _ \<Rightarrow> []) ''passes'' (JBool False)) passes"
    and ac: "apply_change ?rt files p fid passes kvs index = (ms', Inr True, files')"
    by auto
  from find_feature_Some[OF ff] obtain fkv where fkv: "feature = JObj fkv" by blast
  from apply_change_ok[OF ac] obtain d1 data' bp old_text where
    sp: "set_passes kvs index passes = Inr d1" and um: "update_metadata rt d1 = Inr data'"
    and ws: "with_suffix p ''.json.bak'' = Inr bp" and old: "files p = Some old_text" and bp: "bp \<noteq> p"
    and fs: "files' = files(bp \<mapsto> old_text, p \<mapsto> json_dumps ?rt (JObj data'))"
    by auto
  have reach: "snd (update_feature_status (rt\<lparr>io_fault := f\<rparr>) files p fid passes dry)
                 = snd (apply_change (rt\<lparr>io_fault := f\<rparr>) files p fid passes kvs index)" for f
    using update_reaches_apply[of "rt\<lparr>io_fault := f\<rparr>" files p kvs fid index fkv passes] ld ff ne nd fkv
    by simp
  have f0: "files' bp = Some old_text" using fs bp by simp
  have f1: "snd (apply_change (rt\<lparr>io_fault := OpenFault\<rparr>) files p fid passes kvs index)
              = (Inl OSError, files(bp \<mapsto> old_text))"
    using sp um ws old bp by (rule apply_change_fault(1))
  have f2: "snd (apply_change (rt\<lparr>io_fault := WriteFault part\<rparr>) files p fid passes kvs index)
              = (Inl OSError, files(bp \<mapsto> old_text, p \<mapsto> part))" for part
    using sp um ws old bp by (rule apply_change_fault(2))
  have f3: "snd (apply_change (rt\<lparr>io_fault := CopyFault None\<rparr>) files p fid passes kvs index)
              = (Inl OSError, files)"
    using sp um ws old bp by (rule apply_change_fault(3))
  have f4: "snd (apply_change (rt\<lparr>io_fault := CopyFault (Some part)\<rparr>) files p fid passes kvs index)
              = (Inl OSError, files(bp \<mapsto> part))" for part
    using sp um ws old bp by (rule apply_change_fault(4))
  have f5: "fst (snd (update_feature_status (rt\<lparr>io_fault := CopyFault left\<rparr>) files p fid passes dry)) = Inl OSError
            \<and> snd (snd (update_feature_status (rt\<lparr>io_fault := CopyFault left\<rparr>) files p fid passes dry)) p = Some old_text" for left
    using f3 f4 old bp by (cases left) (simp_all add: reach)
  show ?thesis
    using ws old bp f0 f1 f2 f5
    by (simp add: reach case_prod_beta)
qed

theorem backup_written_before_overwrite_witness:
  "update_feature_status (example_runtime\<lparr>io_fault := NoFault\<rparr>) example_files example_path ''F002'' True False
     = (example_messages, Inr True, example_files_after) \<and> changed example_messages \<and>
   (\<exists>bp old_text. with_suffix example_path ''.json.bak'' = Inr bp \<and> bp \<noteq> example_path \<and>
      example_files example_path = Some old_text \<and> example_files_after bp = Some old_text \<and>
      (let (r1, files1) = snd (update_feature_status (example_runtime\<lparr>io_fault := OpenFault\<rparr>)
                                 example_files example_path ''F002'' True False)
       in r1 = Inl OSError \<and> files1 example_path = Some old_text \<and> files1 bp = Some old_text) \<and>
      (\<forall>part. let (r2, files2) = snd (update_feature_status (example_runtime\<lparr>io_fault := WriteFault part\<rparr>)
                                 example_files example_path ''F002'' True False)
       in r2 = Inl OSError \<and> files2 bp = Some old_text) \<and>
      (\<forall>left. let (r3, files3) = snd (update_feature_status (example_runtime\<lparr>io_fault := CopyFault left\<rparr>)
                                 example_files example_path ''F002'' True False)
       in r3 = Inl OSError \<and> files3 example_path = Some old_text))"
proof -
  have run: "update_feature_status (example_runtime\<lparr>io_fault := NoFault\<rparr>) example_files example_path ''F002'' True False
     = (example_messages, Inr True, example_files_after)"
    by (simp only: example_runtime_no_fault example_run)
  from backup_written_before_overwrite[OF run example_changed] run example_changed
  show ?thesis by blast
qed

text \<open>
  C6 (as the code has it). \<^verbatim>\<open>with_suffix('.json.bak')\<close> replaces the last suffix of the
  file name. For a ledger whose file name ends in the suffix \<^verbatim>\<open>.json\<close> the backup is
  therefore the sibling whose name is the ledger's name with \<^verbatim>\<open>.bak\<close> appended; every
  successful changing run leaves there the text the ledger had before that run, whatever
  the backup held earlier, and touches no file other than the ledger and this backup.
\<close>

theorem backup_path_of_json_ledger:
  assumes "py_suffix (path_name p) = ''.json''"
  shows "with_suffix p ''.json.bak'' = Inr (Path (path_parent p) (path_name p @ ''.bak'')) \<and>
     (update_feature_status rt files p fid passes dry = (ms, Inr True, files') \<and> changed ms \<longrightarrow>
        files' (Path (path_parent p) (path_name p @ ''.bak'')) = files p \<and>
        (\<forall>q. q \<noteq> p \<and> q \<noteq> Path (path_parent p) (path_name p @ ''.bak'') \<longrightarrow> files' q = files q))"
proof (intro conjI impI)
  show ws: "with_suffix p ''.json.bak'' = Inr (Path (path_parent p) (path_name p @ ''.bak''))"
    by (rule with_suffix_json[OF assms])
  assume a: "update_feature_status rt files p fid passes dry = (ms, Inr True, files') \<and> changed ms"
  from update_changed_inv[of rt files p fid passes dry ms True files'] a
  obtain kvs index ms' where "apply_change rt files p fid passes kvs index = (ms', Inr True, files')"
    by blast
  from apply_change_ok[OF this] ws obtain d' old_text where
    "files p = Some old_text" "Path (path_parent p) (path_name p @ ''.bak'') \<noteq> p"
    "files' = files(Path (path_parent p) (path_name p @ ''.bak'') \<mapsto> old_text, p \<mapsto> d')"
    by auto
  then show "files' (Path (path_parent p) (path_name p @ ''.bak'')) = files p"
    and "\<forall>q. q \<noteq> p \<and> q \<noteq> Path (path_parent p) (path_name p @ ''.bak'') \<longrightarrow> files' q = files q"
    by auto
qed

theorem backup_path_of_json_ledger_witness:
  "py_suffix (path_name example_path) = ''.json'' \<and>
   with_suffix example_path ''.json.bak''
     = Inr (Path (path_parent example_path) (path_name example_path @ ''.bak'')) \<and>
   update_feature_status example_runtime example_files example_path ''F002'' True False
     = (example_messages, Inr True, example_files_after) \<and> changed example_messages \<and>
   example_files_after (Path (path_parent example_path) (path_name example_path @ ''.bak''))
     = example_files example_path \<and>
   example_files_after (Path [] ''feature_list.json.bak.1'') = example_files (Path [] ''feature_list.json.bak.1'')"
proof -
  have h: "py_suffix (path_name example_path) = ''.json''"
    by (simp add: example_path_def py_suffix_def)
  have d: "Path [] ''feature_list.json.bak.1'' \<noteq> example_path \<and>
           Path [] ''feature_list.json.bak.1'' \<noteq> Path (path_parent example_path) (path_name example_path @ ''.bak'')"
    by (simp add: example_path_def)
  from backup_path_of_json_ledger[OF h, of example_runtime example_files "''F002''" True False
         example_messages example_files_after]
       h d example_run example_changed
  show ?thesis by blast
qed

text \<open>
  C6 as stated fails for a ledger named \<^verbatim>\<open>ledger.txt\<close>: saving it with a backup leaves
  nothing at \<^verbatim>\<open>ledger.txt.bak\<close>; the old text goes to \<^verbatim>\<open>ledger.json.bak\<close>.
\<close>

theorem backup_path_not_appended_counterexample:
  "snd (save_feature_list example_runtime
          (\<lambda>q. if q = Path [] ''ledger.txt'' then Some ''ledger-text'' else None)
          (Path [] ''ledger.txt'') example_ledger True) (Path [] (''ledger.txt'' @ ''.bak'')) = None \<and>
   snd (save_feature_list example_runtime
          (\<lambda>q. if q = Path [] ''ledger.txt'' then Some ''ledger-text'' else None)
          (Path [] ''ledger.txt'') example_ledger True) (Path [] ''ledger.json.bak'') = Some ''ledger-text''"
  by (simp add: save_feature_list_def with_suffix_def py_suffix_def shutil_copy_def example_runtime_def)

text \<open>
  C7. For a ledger whose features are objects (an absent \<open>features\<close> counts as empty) with
  string descriptions where they have one among the first ten, and an id that no feature
  carries, the update returns failure after printing the not-found error and a listing
  that shows the ids of the first ten features; the file system is left exactly as it
  was, so the ledger is unchanged and no backup exists that did not exist before.
\<close>

theorem mutate_unknown_id:
  assumes ld: "load_feature_list rt files p = Inr (JObj kvs)"
      and fs: "dict_get kvs ''features'' (JList []) = JList items"
      and obj: "list_all is_obj items"
      and absent: "\<forall>f\<in>set items. feature_id f \<noteq> JStr fid"
      and desc: "list_all description_ok (take 10 items)"
  shows "\<exists>ms. update_feature_status rt files p fid passes dry
                 = (FeatureNotFoundMsg fid # AvailableHeaderMsg # ms, Inr False, files) \<and>
              shown_ids ms = map feature_id (take 10 items) \<and> \<not> changed ms"
proof -
  have ff: "find_feature (JObj kvs) fid = Inr None"
    using find_loop_absent[OF obj absent] fs by (simp add: find_feature_def py_get_def)
  have obj10: "list_all is_obj (take 10 items)"
    using obj by (auto simp: list_all_iff dest: in_set_takeD)
  have al: "available_lines (take 10 items) = (map available_line (take 10 items), None)"
    by (rule available_lines_ok[OF obj10 desc])
  define more where "more = (if length items > 10 then [AndMoreMsg (length items - 10)] else [])"
  have rn: "report_not_found (JObj kvs) fid
          = (FeatureNotFoundMsg fid # AvailableHeaderMsg # (map available_line (take 10 items) @ more), Inr False)"
    using fs al by (simp add: report_not_found_def py_get_def bindE_def more_def)
  have "update_feature_status rt files p fid passes dry
          = (FeatureNotFoundMsg fid # AvailableHeaderMsg # (map available_line (take 10 items) @ more), Inr False, files)"
    using ld ff rn by (simp add: update_feature_status_def)
  moreover have "shown_ids (map available_line (take 10 items) @ more) = map feature_id (take 10 items)"
    using shown_ids_available[OF obj10]
    by (simp add: more_def shown_ids_append)
  moreover have "\<not> changed (map available_line (take 10 items) @ more)"
    using obj10 by (auto simp: changed_def more_def list_ex_iff list_all_iff available_line_def is_obj_def split: json.splits)
  ultimately show ?thesis by blast
qed

theorem mutate_unknown_id_witness:
  "load_feature_list example_runtime example_files example_path
     = Inr (JObj [(''features'', JList example_features)]) \<and>
   dict_get [(''features'', JList example_features)] ''features'' (JList []) = JList example_features \<and>
   list_all is_obj example_features \<and>
   list_all (\<lambda>f. feature_id f \<noteq> JStr ''F999'') example_features \<and>
   list_all description_ok (take 10 example_features) \<and>
   (\<exists>ms. update_feature_status example_runtime example_files example_path ''F999'' True False
            = (FeatureNotFoundMsg ''F999'' # AvailableHeaderMsg # ms, Inr False, example_files) \<and>
         shown_ids ms = map feature_id (take 10 example_features) \<and> \<not> changed ms)"
proof -
  have h1: "load_feature_list example_runtime example_files example_path
              = Inr (JObj [(''features'', JList example_features)])"
    using example_load by (simp add: example_ledger_def)
  have h2: "dict_get [(''features'', JList example_features)] ''features'' (JList []) = JList example_features"
    by (simp add: dict_get_def)
  have h3: "list_all is_obj example_features"
    by (simp add: example_features_def is_obj_def)
  have h4: "\<forall>f\<in>set example_features. feature_id f \<noteq> JStr ''F999''"
    by (simp add: example_features_def feature_id_def dict_get_def)
  have h5: "list_all description_ok (take 10 example_features)"
    by (simp add: example_features_def description_ok_def)
  have h4': "list_all (\<lambda>f. feature_id f \<noteq> JStr ''F999'') example_features"
    using h4 by (simp add: list_all_iff)
  from mutate_unknown_id[OF h1 h2 h3 h4 h5, of True False] h1 h2 h3 h4' h5
  show ?thesis by blast
qed

section \<open>Properties of the selector\<close>

text \<open>
  C1 (as the code has it). For a ledger whose features are objects with hashable
  priorities, \<^verbatim>\<open>get_next_features\<close> returns the first \<open>limit\<close> entries of the failing
  features stably sorted by rank, where critical=0, high=1, medium=2, low=3, a
  \<^emph>\<open>missing\<close> priority ranks as low (3) and any other present value ranks 4. The result is
  empty exactly when no failing feature remains (or the limit is 0); otherwise its first
  entry is the earliest failing feature of least rank: every failing feature before it in
  the ledger has a strictly greater rank and every one after it a rank at least as great.
\<close>

theorem next_feature_selection:
  assumes fs: "py_get data ''features'' (JList []) = Inr (JList items)"
      and obj: "list_all is_obj items"
      and hp: "list_all priority_hashable items"
  shows "\<exists>res. get_next_features data limit = Inr res \<and>
           res = take limit (sort_key priority_rank (filter (\<lambda>f. \<not> feature_passes f) items)) \<and>
           (\<forall>f\<in>set items. sort_rank f = Inr (priority_rank f)) \<and>
           (res = [] \<longleftrightarrow> limit = 0 \<or> list_all feature_passes items) \<and>
           (res \<noteq> [] \<longrightarrow>
              (\<exists>pre post. filter (\<lambda>f. \<not> feature_passes f) items = pre @ hd res # post \<and>
                 (\<forall>g\<in>set pre. priority_rank (hd res) < priority_rank g) \<and>
                 (\<forall>g\<in>set post. priority_rank (hd res) \<le> priority_rank g)))"
proof -
  let ?fl = "filter (\<lambda>f. \<not> feature_passes f) items"
  let ?res = "take limit (sort_key priority_rank ?fl)"
  have run: "get_next_features data limit = Inr ?res"
    by (rule get_next_features_eq[OF fs obj hp])
  have ranks: "\<forall>f\<in>set items. sort_rank f = Inr (priority_rank f)"
    using obj hp by (auto simp: list_all_iff sort_rank_eq)
  have empty: "?res = [] \<longleftrightarrow> limit = 0 \<or> list_all feature_passes items"
  proof -
    have "sort_key priority_rank ?fl = [] \<longleftrightarrow> ?fl = []"
      by (metis length_0_conv length_sort)
    then show ?thesis by (auto simp: take_eq_Nil filter_empty_conv list_all_iff)
  qed
  have first: "\<exists>pre post. ?fl = pre @ hd ?res # post \<and>
                 (\<forall>g\<in>set pre. priority_rank (hd ?res) < priority_rank g) \<and>
                 (\<forall>g\<in>set post. priority_rank (hd ?res) \<le> priority_rank g)" if "?res \<noteq> []"
  proof -
    from that have "limit \<noteq> 0" and ne: "?fl \<noteq> []" by auto
    then have "hd ?res = hd (sort_key priority_rank ?fl)" by (simp add: hd_take)
    with hd_sort_key_first_min[OF ne, of priority_rank] show ?thesis by simp
  qed
  from run ranks empty first show ?thesis by blast
qed

lemma example_next:
  "get_next_features example_ledger 5
     = Inr [JObj [(''id'', JStr ''F002''), (''priority'', JStr ''critical''), (''passes'', JBool False)],
            JObj [(''id'', JStr ''F001''), (''priority'', JStr ''high''), (''passes'', JBool False)]]"
  by (simp add: get_next_features_def example_ledger_def example_features_def py_get_def dict_get_def
        bindE_def sort_rank_def priority_order_def)

theorem next_feature_selection_witness:
  "py_get example_ledger ''features'' (JList []) = Inr (JList example_features) \<and>
   list_all is_obj example_features \<and> list_all priority_hashable example_features \<and>
   (\<exists>res. get_next_features example_ledger 5 = Inr res \<and>
      res = take 5 (sort_key priority_rank (filter (\<lambda>f. \<not> feature_passes f) example_features)) \<and>
      (\<forall>f\<in>set example_features. sort_rank f = Inr (priority_rank f)) \<and>
      (res = [] \<longleftrightarrow> (5::nat) = 0 \<or> list_all feature_passes example_features) \<and>
      (res \<noteq> [] \<longrightarrow>
         (\<exists>pre post. filter (\<lambda>f. \<not> feature_passes f) example_features = pre @ hd res # post \<and>
            (\<forall>g\<in>set pre. priority_rank (hd res) < priority_rank g) \<and>
            (\<forall>g\<in>set post. priority_rank (hd res) \<le> priority_rank g)))) \<and>
   get_next_features example_ledger 5
     = Inr [JObj [(''id'', JStr ''F002''), (''priority'', JStr ''critical''), (''passes'', JBool False)],
            JObj [(''id'', JStr ''F001''), (''priority'', JStr ''high''), (''passes'', JBool False)]]"
proof -
  have h1: "py_get example_ledger ''features'' (JList []) = Inr (JList example_features)"
    by (simp add: example_ledger_def py_get_def dict_get_def)
  have h2: "list_all is_obj example_features"
    by (simp add: example_features_def is_obj_def)
  have h3: "list_all priority_hashable example_features"
    by (simp add: example_features_def priority_hashable_def)
  from next_feature_selection[OF h1 h2 h3, of 5] h1 h2 h3 example_next
  show ?thesis by blast
qed

text \<open>
  C1 as stated fails where a priority is missing: the specification ranks the feature
  without a priority last (4, after low), the code ranks it as low and, being earlier in
  the ledger, returns it first.
\<close>

theorem missing_priority_counterexample:
  "get_next_features (JObj [(''features'', JList unranked_features)]) 5
     = Inr [JObj [(''id'', JStr ''U001''), (''passes'', JBool False)],
            JObj [(''id'', JStr ''L001''), (''priority'', JStr ''low''), (''passes'', JBool False)]] \<and>
   spec_next_feature unranked_features
     = Some (JObj [(''id'', JStr ''L001''), (''priority'', JStr ''low''), (''passes'', JBool False)])"
  by (simp add: get_next_features_def unranked_features_def py_get_def dict_get_def
        bindE_def sort_rank_def priority_order_def spec_next_feature_def spec_priority_rank_def
        feature_passes_def)

section \<open>A feature without a \<open>passes\<close> field\<close>

text \<open>
  C9. Let a feature record have no \<open>passes\<close> field. Marking it as failing finds it
  already failing: only the "already marked" line is printed, the run succeeds and the
  file system is untouched. The metadata recomputation counts it as failing: of two
  documents whose feature lists differ by that one record, \<^verbatim>\<open>update_metadata\<close> gives the
  one with the record the same \<open>passing\<close>, a \<open>failing\<close> greater by one and a
  \<open>total_features\<close> greater by one; and \<^verbatim>\<open>update_metadata\<close> does return on a document
  whose features are objects and whose metadata, if present, is an object. The
  validator's statistics differ in the same way between two such ledgers. The selector
  keeps the record among the failing candidates: with a limit that does not cut the list,
  it is in the result of \<^verbatim>\<open>get_next_features\<close>.
\<close>

theorem missing_passes_is_failing:
  assumes np: "map_of fkv ''passes'' = None"
  shows "(load_feature_list rt files p = Inr data \<and> find_feature data fid = Inr (Some (index, JObj fkv))
            \<longrightarrow> update_feature_status rt files p fid False dry
                  = ([AlreadyMarkedMsg fid False], Inr True, files)) \<and>
         (update_metadata rt d = Inr d' \<and> update_metadata rt d0 = Inr d0' \<and>
          map_of d ''features'' = Some (JList (pre @ JObj fkv # post)) \<and>
          map_of d0 ''features'' = Some (JList (pre @ post))
            \<longrightarrow> (\<exists>meta meta0 np nf nt.
                   map_of d' ''metadata'' = Some (JObj meta) \<and>
                   map_of d0' ''metadata'' = Some (JObj meta0) \<and>
                   map_of meta0 ''passing'' = Some (JInt np) \<and>
                   map_of meta ''passing'' = Some (JInt np) \<and>
                   map_of meta0 ''failing'' = Some (JInt nf) \<and>
                   map_of meta ''failing'' = Some (JInt (nf + 1)) \<and>
                   map_of meta0 ''total_features'' = Some (JInt nt) \<and>
                   map_of meta ''total_features'' = Some (JInt (nt + 1)))) \<and>
         (map_of d ''features'' = Some (JList (pre @ JObj fkv # post)) \<and>
          list_all is_obj (pre @ post) \<and>
          (case map_of d ''metadata'' of None \<Rightarrow> True | Some m \<Rightarrow> is_obj m)
            \<longrightarrow> (\<exists>d'. update_metadata rt d = Inr d')) \<and>
         (validate_feature_list vrt osn vfiles vp = Inr (valid, errs, st) \<and>
          vfiles vp = Some text_in \<and> json_loads vrt text_in = Some (JObj kvs) \<and>
          map_of kvs ''features'' = Some (JList (pre @ JObj fkv # post)) \<and>
          validate_feature_list vrt0 osn0 vfiles0 vp0 = Inr (valid0, errs0, st0) \<and>
          vfiles0 vp0 = Some text_in0 \<and> json_loads vrt0 text_in0 = Some (JObj kvs0) \<and>
          map_of kvs0 ''features'' = Some (JList (pre @ post))
            \<longrightarrow> stats_failing st = stats_failing st0 + 1 \<and> stats_passing st = stats_passing st0 \<and>
                stats_total st = stats_total st0 + 1) \<and>
         (py_get ledger ''features'' (JList []) = Inr (JList items) \<and> list_all is_obj items \<and>
          list_all priority_hashable items \<and> JObj fkv \<in> set items \<and> length items \<le> limit
            \<longrightarrow> (\<exists>res. get_next_features ledger limit = Inr res \<and> JObj fkv \<in> set res))"
proof -
  have nf: "\<not> feature_passes (JObj fkv)" using np by (simp add: feature_passes_def dict_get_def)
  have a: "update_feature_status rt files p fid False dry = ([AlreadyMarkedMsg fid False], Inr True, files)"
    if "load_feature_list rt files p = Inr data" "find_feature data fid = Inr (Some (index, JObj fkv))"
    using that np by (intro update_noop[where data=data and index=index and fkv=fkv]) (auto simp: dict_get_def)
  have b: "\<exists>meta meta0 np nf nt.
                   map_of d' ''metadata'' = Some (JObj meta) \<and>
                   map_of d0' ''metadata'' = Some (JObj meta0) \<and>
                   map_of meta0 ''passing'' = Some (JInt np) \<and>
                   map_of meta ''passing'' = Some (JInt np) \<and>
                   map_of meta0 ''failing'' = Some (JInt nf) \<and>
                   map_of meta ''failing'' = Some (JInt (nf + 1)) \<and>
                   map_of meta0 ''total_features'' = Some (JInt nt) \<and>
                   map_of meta ''total_features'' = Some (JInt (nt + 1))"
    if "update_metadata rt d = Inr d'" "update_metadata rt d0 = Inr d0'"
       "map_of d ''features'' = Some (JList (pre @ JObj fkv # post))"
       "map_of d0 ''features'' = Some (JList (pre @ post))"
    using update_metadata_missing_passes[OF np that] .
  have c: "\<exists>d'. update_metadata rt d = Inr d'"
    if "map_of d ''features'' = Some (JList (pre @ JObj fkv # post))" "list_all is_obj (pre @ post)"
       "case map_of d ''metadata'' of None \<Rightarrow> True | Some m \<Rightarrow> is_obj m"
    using that by (intro update_metadata_total[where items="pre @ JObj fkv # post"]) (auto simp: is_obj_def)
  have v: "stats_failing st = stats_failing st0 + 1 \<and> stats_passing st = stats_passing st0 \<and>
           stats_total st = stats_total st0 + 1"
    if r: "validate_feature_list vrt osn vfiles vp = Inr (valid, errs, st)"
       "vfiles vp = Some text_in" "json_loads vrt text_in = Some (JObj kvs)"
       "map_of kvs ''features'' = Some (JList (pre @ JObj fkv # post))"
    and r0: "validate_feature_list vrt0 osn0 vfiles0 vp0 = Inr (valid0, errs0, st0)"
       "vfiles0 vp0 = Some text_in0" "json_loads vrt0 text_in0 = Some (JObj kvs0)"
       "map_of kvs0 ''features'' = Some (JList (pre @ post))"
    using validate_stats_counts[OF r] validate_stats_counts[OF r0] nf by simp
  have s: "\<exists>res. get_next_features ledger limit = Inr res \<and> JObj fkv \<in> set res"
    if "py_get ledger ''features'' (JList []) = Inr (JList items)" "list_all is_obj items"
       "list_all priority_hashable items" "JObj fkv \<in> set items" "length items \<le> limit"
    using that nf by (intro next_features_contains_failing[where items=items]) auto
  from a b c v s show ?thesis by blast
qed

theorem missing_passes_is_failing_witness:
  "map_of [(''id'', JStr ''B001'')] ''passes'' = None \<and>
   load_feature_list example_runtime example_files bare_path = Inr bare_ledger \<and>
   find_feature bare_ledger ''B001'' = Inr (Some (0, JObj [(''id'', JStr ''B001'')])) \<and>
   update_feature_status example_runtime example_files bare_path ''B001'' False False
     = ([AlreadyMarkedMsg ''B001'' False], Inr True, example_files) \<and>
   update_metadata example_runtime [(''features'', JList bare_features)] = Inr bare_updated \<and>
   update_metadata example_runtime [(''features'', JList [])] = Inr empty_updated \<and>
   map_of [(''features'', JList bare_features)] ''features''
     = Some (JList ([] @ JObj [(''id'', JStr ''B001'')] # [])) \<and>
   map_of [(''features'', JList [])] ''features'' = Some (JList ([] @ [])) \<and>
   (\<exists>meta meta0 np nf nt.
      map_of bare_updated ''metadata'' = Some (JObj meta) \<and>
      map_of empty_updated ''metadata'' = Some (JObj meta0) \<and>
      map_of meta0 ''passing'' = Some (JInt np) \<and> map_of meta ''passing'' = Some (JInt np) \<and>
      map_of meta0 ''failing'' = Some (JInt nf) \<and> map_of meta ''failing'' = Some (JInt (nf + 1)) \<and>
      map_of meta0 ''total_features'' = Some (JInt nt) \<and>
      map_of meta ''total_features'' = Some (JInt (nt + 1))) \<and>
   list_all is_obj ([] @ []) \<and>
   (case map_of [(''features'', JList bare_features)] ''metadata'' of None \<Rightarrow> True | Some m \<Rightarrow> is_obj m) \<and>
   (\<exists>d'. update_metadata example_runtime [(''features'', JList bare_features)] = Inr d') \<and>
   validate_feature_list example_runtime example_sum_ne example_files bare_path
     = Inr (False, bare_errors, bare_stats) \<and>
   example_files bare_path = Some ''bare-text'' \<and>
   json_loads example_runtime ''bare-text'' = Some (JObj [(''features'', JList bare_features)]) \<and>
   validate_feature_list example_runtime example_sum_ne example_files empty_path
     = Inr (True, [], empty_stats) \<and>
   example_files empty_path = Some ''empty-text'' \<and>
   json_loads example_runtime ''empty-text'' = Some (JObj [(''features'', JList [])]) \<and>
   stats_failing bare_stats = stats_failing empty_stats + 1 \<and>
   stats_passing bare_stats = stats_passing empty_stats \<and>
   stats_total bare_stats = stats_total empty_stats + 1 \<and>
   py_get bare_ledger ''features'' (JList []) = Inr (JList bare_features) \<and>
   list_all is_obj bare_features \<and> list_all priority_hashable bare_features \<and>
   JObj [(''id'', JStr ''B001'')] \<in> set bare_features \<and> length bare_features \<le> 5 \<and>
   (\<exists>res. get_next_features bare_ledger 5 = Inr res \<and> JObj [(''id'', JStr ''B001'')] \<in> set res)"
proof -
  have h0: "map_of [(''id'', JStr ''B001'')] ''passes'' = None" by simp
  have h1: "py_get bare_ledger ''features'' (JList []) = Inr (JList bare_features)"
    by (simp add: bare_ledger_def py_get_def dict_get_def)
  have h2: "list_all is_obj bare_features" "list_all priority_hashable bare_features"
    "JObj [(''id'', JStr ''B001'')] \<in> set bare_features" "length bare_features \<le> 5"
    by (simp_all add: bare_features_def is_obj_def priority_hashable_def)
  have m1: "map_of [(''features'', JList bare_features)] ''features''
              = Some (JList ([] @ JObj [(''id'', JStr ''B001'')] # []))"
    by (simp add: bare_features_def)
  have m2: "map_of [(''features'', JList [])] ''features'' = Some (JList ([] @ []))" by simp
  have m3: "list_all is_obj ([] @ [])" by simp
  have m4: "case map_of [(''features'', JList bare_features)] ''metadata'' of
              None \<Rightarrow> True | Some m \<Rightarrow> is_obj m" by simp
  have v1: "example_files bare_path = Some ''bare-text''"
    by (simp add: example_files_def bare_path_def example_path_def)
  have v2: "json_loads example_runtime ''bare-text'' = Some (JObj [(''features'', JList bare_features)])"
    by (simp add: example_runtime_def bare_ledger_def)
  have v3: "example_files empty_path = Some ''empty-text''"
    by (simp add: example_files_def empty_path_def nameless_path_def example_path_def bare_path_def
          twin_path_def triple_path_def)
  have v4: "json_loads example_runtime ''empty-text'' = Some (JObj [(''features'', JList [])])"
    by (simp add: example_runtime_def)
  from missing_passes_is_failing[OF h0, where rt=example_runtime and files=example_files
         and p=bare_path and data=bare_ledger and fid="''B001''" and index=0 and dry=False
         and d="[(''features'', JList bare_features)]" and d'=bare_updated
         and ?d0.0="[(''features'', JList [])]" and d0'=empty_updated
         and pre="[]" and post="[]"
         and vrt=example_runtime and osn=example_sum_ne and vfiles=example_files and vp=bare_path
         and valid=False and errs=bare_errors and st=bare_stats and text_in="''bare-text''"
         and kvs="[(''features'', JList bare_features)]"
         and ?vrt0.0=example_runtime and ?osn0.0=example_sum_ne and ?vfiles0.0=example_files
         and ?vp0.0=empty_path and ?valid0.0=True and ?errs0.0="[]" and ?st0.0=empty_stats
         and ?text_in0.0="''empty-text''" and ?kvs0.0="[(''features'', JList [])]"
         and ledger=bare_ledger and items=bare_features and limit=5]
       h0 h1 h2 m1 m2 m3 m4 v1 v2 v3 v4 bare_load bare_find bare_update empty_update
       bare_report empty_report
  show ?thesis by blast
qed

section \<open>Properties of the validator\<close>

text \<open>
  C4 (as the code has it). Let the ledger be an object with a feature list, and \<open>s\<close> a
  non-empty string. Whenever validation returns a report, the report holds one
  duplicate-id error naming \<open>s\<close> for every occurrence of the id \<open>s\<close> after the first, that
  is, occurrences minus one, and the ledger is reported invalid when \<open>s\<close> occurs twice or
  more. An error carries only the id; no occurrence count is reported. With exactly two
  features sharing an id this is exactly one error. Validation does return a report on
  every ledger that is checkable in the sense defined above.
\<close>

theorem duplicate_ids_reported:
  assumes src: "files p = Some text_in" "json_loads rt text_in = Some (JObj kvs)"
      and items: "map_of kvs ''features'' = Some (JList items)"
      and s: "s \<noteq> []"
  shows "(validate_feature_list rt osn files p = Inr (valid, errs, st) \<longrightarrow>
            count_list errs (DuplicateIdErr (JStr s))
              = length (filter (\<lambda>f. feature_id f = JStr s) items) - 1 \<and>
            (2 \<le> length (filter (\<lambda>f. feature_id f = JStr s) items) \<longrightarrow> \<not> valid)) \<and>
         (list_all feature_checkable items \<and> metadata_checkable kvs \<longrightarrow>
            (\<exists>valid errs st. validate_feature_list rt osn files p = Inr (valid, errs, st)))"
proof (intro conjI impI)
  let ?n = "length (filter (\<lambda>f. feature_id f = JStr s) items)"
  assume run: "validate_feature_list rt osn files p = Inr (valid, errs, st)"
  from validate_duplicates[OF run src items]
  have d: "duplicate_ids errs = dup_scan [] items" and v: "valid = (errs = [])" by auto
  from dup_scan_count[OF s, of "[]" items]
  have "count_list (dup_scan [] items) (JStr s) = ?n - 1"
    by (auto split: if_splits)
  with d show c: "count_list errs (DuplicateIdErr (JStr s)) = ?n - 1"
    by (simp add: duplicate_ids_count[symmetric])
  assume "2 \<le> ?n"
  with c have "count_list errs (DuplicateIdErr (JStr s)) \<noteq> 0" by simp
  then have "errs \<noteq> []" by auto
  with v show "\<not> valid" by simp
next
  assume "list_all feature_checkable items \<and> metadata_checkable kvs"
  then show "\<exists>valid errs st. validate_feature_list rt osn files p = Inr (valid, errs, st)"
    using validate_feature_list_total[where files=files and p=p, OF src items] by blast
qed

theorem duplicate_ids_reported_witness:
  "example_files twin_path = Some ''twin-text'' \<and>
   json_loads example_runtime ''twin-text'' = Some (JObj [(''features'', JList twin_features)]) \<and>
   map_of [(''features'', JList twin_features)] ''features'' = Some (JList twin_features) \<and>
   ''F001'' \<noteq> [] \<and>
   validate_feature_list example_runtime example_sum_ne example_files twin_path
     = Inr (False, [DuplicateIdErr (JStr ''F001'')], twin_stats) \<and>
   length (filter (\<lambda>f. feature_id f = JStr ''F001'') twin_features) = 2 \<and>
   count_list [DuplicateIdErr (JStr ''F001'')] (DuplicateIdErr (JStr ''F001''))
     = length (filter (\<lambda>f. feature_id f = JStr ''F001'') twin_features) - 1 \<and>
   list_all feature_checkable twin_features \<and>
   metadata_checkable [(''features'', JList twin_features)] \<and>
   (\<exists>valid errs st. validate_feature_list example_runtime example_sum_ne example_files twin_path
                      = Inr (valid, errs, st))"
proof -
  have h1: "example_files twin_path = Some ''twin-text''"
    by (simp add: example_files_def twin_path_def example_path_def bare_path_def)
  have h2: "json_loads example_runtime ''twin-text'' = Some (JObj [(''features'', JList twin_features)])"
    by (simp add: example_runtime_def)
  have h3: "map_of [(''features'', JList twin_features)] ''features'' = Some (JList twin_features)"
    by simp
  have h4: "''F001'' \<noteq> []" by simp
  have h5: "length (filter (\<lambda>f. feature_id f = JStr ''F001'') twin_features) = 2"
    by (simp add: twin_features_def complete_feature_def feature_id_def dict_get_def)
  have h6: "list_all feature_checkable twin_features"
    by (simp add: twin_features_def complete_feature_def feature_checkable_def dict_get_def
          hashable_def sized_def)
  have h7: "metadata_checkable [(''features'', JList twin_features)]"
    by (simp add: metadata_checkable_def)
  from duplicate_ids_reported[where files=example_files and p=twin_path and osn=example_sum_ne
         and valid=False and errs="[DuplicateIdErr (JStr ''F001'')]" and st=twin_stats, OF h1 h2 h3 h4]
       h1 h2 h3 h4 h5 h6 h7 twin_report
  show ?thesis by blast
qed

text \<open>
  C4 as stated fails when an id occurs three times: the report then holds two
  duplicate-id errors for the one offending id, and neither carries a count.
\<close>

theorem triple_id_counterexample:
  "validate_feature_list example_runtime example_sum_ne example_files triple_path
     = Inr (False, [DuplicateIdErr (JStr ''F001''), DuplicateIdErr (JStr ''F001'')],
            \<lparr>stats_total = 3, stats_passing = 0, stats_failing = 3,
               stats_by_category = [(JStr ''core'', 3)], stats_by_priority = [(JStr ''high'', 3)]\<rparr>)"
  by (simp add: validator_defs)

text \<open>
  C10. In every report the validator returns, each duplicate-id error names a truthy id:
  none names a missing or null id or the empty string. The duplicate check leaves the
  seen ids and the errors as they are when the id is falsy. A feature without an \<open>id\<close>
  field still gets its missing-required-field error. And the features without a truthy
  id have no influence on the duplicate-id errors: a ledger with those features removed
  gets the same duplicate-id errors.
\<close>

theorem falsy_ids_not_duplicates:
  assumes run: "validate_feature_list rt osn files p = Inr (valid, errs, st)"
      and src: "files p = Some text_in" "json_loads rt text_in = Some (JObj kvs)"
      and items: "map_of kvs ''features'' = Some (JList items)"
  shows "(\<forall>v. DuplicateIdErr v \<in> set errs \<longrightarrow> py_truthy v) \<and>
         DuplicateIdErr JNull \<notin> set errs \<and> DuplicateIdErr (JStr []) \<notin> set errs \<and>
         (\<not> py_truthy fid \<longrightarrow> check_duplicate_id fid (seen_ids, errors) = Inr (seen_ids, errors)) \<and>
         (k < length items \<and> items ! k = JObj fkv \<and> map_of fkv ''id'' = None
            \<longrightarrow> MissingFieldErr (IndexLabel k) ''id'' \<in> set errs) \<and>
         (validate_feature_list rt' osn' files' p' = Inr (valid', errs', st') \<and>
          files' p' = Some text_in' \<and> json_loads rt' text_in' = Some (JObj kvs') \<and>
          map_of kvs' ''features'' = Some (JList (filter (\<lambda>f. py_truthy (feature_id f)) items))
            \<longrightarrow> duplicate_ids errs' = duplicate_ids errs)"
proof -
  from validate_duplicates(1)[OF run src items]
  have d: "duplicate_ids errs = dup_scan [] items" .
  have t: "py_truthy v" if "DuplicateIdErr v \<in> set errs" for v
    using that d dup_scan_truthy[of v "[]" items] by (simp add: duplicate_ids_set[symmetric])
  have n: "DuplicateIdErr JNull \<notin> set errs" "DuplicateIdErr (JStr []) \<notin> set errs"
    using t[of JNull] t[of "JStr []"] by auto
  have c: "\<not> py_truthy fid \<longrightarrow> check_duplicate_id fid (seen_ids, errors) = Inr (seen_ids, errors)"
    by (simp add: check_duplicate_id_def)
  have r: "duplicate_ids errs' = duplicate_ids errs"
    if "validate_feature_list rt' osn' files' p' = Inr (valid', errs', st')"
       "files' p' = Some text_in'" "json_loads rt' text_in' = Some (JObj kvs')"
       "map_of kvs' ''features'' = Some (JList (filter (\<lambda>f. py_truthy (feature_id f)) items))"
    using validate_duplicates(1)[OF that] d by (simp add: dup_scan_filter)
  have m: "MissingFieldErr (IndexLabel k) ''id'' \<in> set errs"
    if "k < length items" "items ! k = JObj fkv" "map_of fkv ''id'' = None"
    using validate_missing_id_reported[OF run src items that] .
  from t n c m r show ?thesis by blast
qed

theorem falsy_ids_not_duplicates_witness:
  "validate_feature_list example_runtime example_sum_ne example_files nameless_path
     = Inr (False, nameless_errors, nameless_stats) \<and>
   example_files nameless_path = Some ''nameless-text'' \<and>
   json_loads example_runtime ''nameless-text'' = Some (JObj [(''features'', JList nameless_features)]) \<and>
   map_of [(''features'', JList nameless_features)] ''features'' = Some (JList nameless_features) \<and>
   DuplicateIdErr JNull \<notin> set nameless_errors \<and> DuplicateIdErr (JStr []) \<notin> set nameless_errors \<and>
   \<not> py_truthy JNull \<and> check_duplicate_id JNull ([], []) = Inr ([], []) \<and>
   2 < length nameless_features \<and> nameless_features ! 2 = JObj [(''passes'', JBool False)] \<and>
   map_of [(''passes'', JBool False)] ''id'' = None \<and>
   MissingFieldErr (IndexLabel 2) ''id'' \<in> set nameless_errors \<and>
   validate_feature_list example_runtime example_sum_ne example_files empty_path
     = Inr (True, [], empty_stats) \<and>
   example_files empty_path = Some ''empty-text'' \<and>
   json_loads example_runtime ''empty-text'' = Some (JObj [(''features'', JList [])]) \<and>
   map_of [(''features'', JList [])] ''features''
     = Some (JList (filter (\<lambda>f. py_truthy (feature_id f)) nameless_features)) \<and>
   duplicate_ids [] = duplicate_ids nameless_errors"
proof -
  have h1: "example_files nameless_path = Some ''nameless-text''"
    by (simp add: example_files_def nameless_path_def example_path_def bare_path_def twin_path_def
          triple_path_def)
  have h2: "json_loads example_runtime ''nameless-text'' = Some (JObj [(''features'', JList nameless_features)])"
    by (simp add: example_runtime_def)
  have h3: "map_of [(''features'', JList nameless_features)] ''features'' = Some (JList nameless_features)"
    by simp
  have g1: "example_files empty_path = Some ''empty-text''"
    by (simp add: example_files_def empty_path_def nameless_path_def example_path_def bare_path_def
          twin_path_def triple_path_def)
  have g2: "json_loads example_runtime ''empty-text'' = Some (JObj [(''features'', JList [])])"
    by (simp add: example_runtime_def)
  have g3: "map_of [(''features'', JList [])] ''features''
              = Some (JList (filter (\<lambda>f. py_truthy (feature_id f)) nameless_features))"
    by (simp add: nameless_features_def feature_id_def dict_get_def)
  have n: "\<not> py_truthy JNull" by simp
  have k: "2 < length nameless_features" "nameless_features ! 2 = JObj [(''passes'', JBool False)]"
    "map_of [(''passes'', JBool False)] ''id'' = None"
    by (simp_all add: nameless_features_def)
  from falsy_ids_not_duplicates[where files=example_files and p=nameless_path
         and k=2 and fkv="[(''passes'', JBool False)]"
         and fid=JNull and seen_ids="[]" and errors="[]" and rt'=example_runtime
         and osn'=example_sum_ne and files'=example_files and p'=empty_path and valid'=True
         and errs'="[]" and st'=empty_stats and text_in'="''empty-text''"
         and kvs'="[(''features'', JList [])]", OF nameless_report h1 h2 h3]
       nameless_report h1 h2 h3 empty_report g1 g2 g3 n k
  show ?thesis by blast
qed

text \<open>
  C8. For a ledger whose feature list is empty (and whose metadata, if any, is
  checkable), validation returns statistics with total, passing and failing all 0 and
  empty breakdowns; the percentages of the report, computed over \<^verbatim>\<open>max(total, 1)\<close>, are
  both the float 0.0; the progress bar returns without dividing when the total is 0. No
  percentage computation raises \<^verbatim>\<open>ZeroDivisionError\<close>, whatever the statistics or the
  counts (for enormous counts the float arithmetic can still raise \<^verbatim>\<open>OverflowError\<close>).
\<close>

theorem stats_of_empty_ledger:
  assumes src: "files p = Some text_in" "json_loads rt text_in = Some (JObj kvs)"
      and items: "map_of kvs ''features'' = Some (JList [])"
      and meta: "metadata_checkable kvs"
  shows "\<exists>valid errs st.
           validate_feature_list rt osn files p = Inr (valid, errs, st) \<and>
           stats_total st = 0 \<and> stats_passing st = 0 \<and> stats_failing st = 0 \<and>
           stats_by_category st = [] \<and> stats_by_priority st = [] \<and>
           print_report_percentages st = Inr (Fin 0, Fin 0) \<and>
           print_progress_bar (int (stats_passing st)) (int (stats_total st)) width = Inr None \<and>
           (\<forall>st'. print_report_percentages st' \<noteq> Inl ZeroDivisionError) \<and>
           (\<forall>a b w. print_progress_bar a b w \<noteq> Inl ZeroDivisionError)"
proof -
  from validate_feature_list_total[where files=files and p=p and osn=osn, OF src items _ meta] obtain valid errs st where
    run: "validate_feature_list rt osn files p = Inr (valid, errs, st)" by auto
  from validate_feature_list_inv[OF run src items] have st: "st = empty_stats" by auto
  have "print_report_percentages empty_stats = Inr (Fin 0, Fin 0)"
    by (simp add: print_report_percentages_def empty_stats_def py_truediv_zero_dividend bindE_Inr
          round_double_def)
  moreover have "print_progress_bar (int (stats_passing empty_stats)) (int (stats_total empty_stats)) width = Inr None"
    by (simp add: print_progress_bar_def empty_stats_def)
  ultimately show ?thesis
    using run st print_report_percentages_no_zerodiv print_progress_bar_no_zerodiv
    by (auto simp: empty_stats_def)
qed

theorem stats_of_empty_ledger_witness:
  "example_files empty_path = Some ''empty-text'' \<and>
   json_loads example_runtime ''empty-text'' = Some (JObj [(''features'', JList [])]) \<and>
   map_of [(''features'', JList [])] ''features'' = Some (JList []) \<and>
   metadata_checkable [(''features'', JList [])] \<and>
   validate_feature_list example_runtime example_sum_ne example_files empty_path
     = Inr (True, [], empty_stats) \<and>
   (\<exists>valid errs st.
      validate_feature_list example_runtime example_sum_ne example_files empty_path = Inr (valid, errs, st) \<and>
      stats_total st = 0 \<and> stats_passing st = 0 \<and> stats_failing st = 0 \<and>
      stats_by_category st = [] \<and> stats_by_priority st = [] \<and>
      print_report_percentages st = Inr (Fin 0, Fin 0) \<and>
      print_progress_bar (int (stats_passing st)) (int (stats_total st)) 40 = Inr None \<and>
      (\<forall>st'. print_report_percentages st' \<noteq> Inl ZeroDivisionError) \<and>
      (\<forall>a b w. print_progress_bar a b w \<noteq> Inl ZeroDivisionError))"
proof -
  have g1: "example_files empty_path = Some ''empty-text''"
    by (simp add: example_files_def empty_path_def nameless_path_def example_path_def bare_path_def
          twin_path_def triple_path_def)
  have g2: "json_loads example_runtime ''empty-text'' = Some (JObj [(''features'', JList [])])"
    by (simp add: example_runtime_def)
  have g3: "map_of [(''features'', JList [])] ''features'' = Some (JList [])" by simp
  have g4: "metadata_checkable [(''features'', JList [])]" by (simp add: metadata_checkable_def)
  from stats_of_empty_ledger[where files=example_files and p=empty_path and osn=example_sum_ne
         and width=40, OF g1 g2 g3 g4] g1 g2 g3 g4 empty_report
  show ?thesis by blast
qed

end
